theory Spec2Isabelle
  imports Complex_Main "HOL-Library.Log_Nat"
begin

section \<open>The damage calculator of \<open>damage_calculator.py\<close>\<close>

text \<open>
  The module computes one hit (\<open>DamageCalculator.calculate_damage\<close>, the specification's
  \<open>resolve_hit\<close>) and one damage-over-time effect (\<open>DamageCalculator.calculate_dot\<close>,
  the specification's \<open>resolve_dot\<close>).

  The numbers of the source are Python floats, that is binary64 doubles, as the
  annotations of the source declare. A double is modelled by the real number it denotes,
  and every arithmetic operation of the source rounds its exact result to the nearest
  double, ties to the even mantissa (\<open>to_double\<close>). An \<open>int\<close> that meets a float is
  converted to the double of the same value, and the true division of two \<open>int\<close>s
  rounds their exact quotient in the same way. The model keeps 53 bits of mantissa and
  leaves the exponent unbounded: results beyond the largest double (infinities), results
  below the smallest normal double, NaN and the sign of zero are outside it.
\<close>

subsection \<open>Data model\<close>

datatype DamageType = PHYSICAL | MAGICAL | TRUE | FIRE | ICE | POISON

text \<open>The \<open>.value\<close> of an enumeration member (lines 6 to 11).\<close>

fun DamageType_value :: "DamageType \<Rightarrow> string" where
  "DamageType_value PHYSICAL = ''physical''"
| "DamageType_value MAGICAL = ''magical''"
| "DamageType_value TRUE = ''true''"
| "DamageType_value FIRE = ''fire''"
| "DamageType_value ICE = ''ice''"
| "DamageType_value POISON = ''poison''"

record Attacker =
  name :: string
  base_damage :: real
  crit_chance :: real
  crit_multiplier :: real
  armor_penetration :: real

text \<open>
  \<open>Defender.__post_init__\<close> replaces a missing \<open>resistances\<close> by the empty dictionary,
  so the field always holds a dictionary: a map from damage types to values.
\<close>

record Defender =
  name :: string
  armor :: real
  resistances :: "DamageType \<rightharpoonup> real"

text \<open>The dictionary built at lines 83 to 92, one field per key.\<close>

record DamageResult =
  attacker :: string
  defender :: string
  base_damage :: real
  is_critical :: bool
  damage_after_crit :: real
  damage_type :: string
  reduction :: real
  final_damage :: real

text \<open>The dictionary returned at lines 113 to 118.\<close>

record DotResult =
  tick_damage :: real
  num_ticks :: int
  total_damage :: real
  duration :: real

text \<open>The instance state of \<open>DamageCalculator\<close>: the list \<open>self.damage_log\<close>.\<close>

record DamageCalculator =
  damage_log :: "DamageResult list"

definition DamageCalculator_init :: DamageCalculator where
  "DamageCalculator_init = \<lparr>damage_log = []\<rparr>"

datatype py_error = ZeroDivisionError

subsection \<open>Binary64 arithmetic\<close>

text \<open>The integer nearest \<open>x\<close>; a value exactly half way goes to the even neighbour.\<close>

definition round_half_even :: "real \<Rightarrow> int" where
  "round_half_even x =
     (let f = \<lfloor>x\<rfloor>; d = x - of_int f
      in if d < 1 / 2 then f
         else if 1 / 2 < d then f + 1
         else if even f then f else f + 1)"

text \<open>
  The binary exponent of a positive number: the \<open>k\<close> with \<open>2 ^ k \<le> x < 2 ^ (k + 1)\<close>,
  counted on the integer part of \<open>x\<close>, or of \<open>1 / x\<close> when \<open>x\<close> is below 1.
\<close>

definition binade :: "real \<Rightarrow> int" where
  "binade x =
     (if 1 \<le> x then int (floorlog 2 (nat \<lfloor>x\<rfloor>)) - 1
      else - int (floorlog 2 (nat (\<lceil>1 / x\<rceil> - 1))))"

text \<open>
  The double nearest \<open>x\<close>: the mantissa \<open>\<bar>x\<bar> / 2 ^ e\<close>, which lies between \<open>2 ^ 52\<close> and
  \<open>2 ^ 53\<close>, is rounded to an integer.
\<close>

definition to_double :: "real \<Rightarrow> real" where
  "to_double x =
     (if x = 0 then 0
      else (let e = binade \<bar>x\<bar> - 52
            in sgn x * (of_int (round_half_even (\<bar>x\<bar> / 2 powi e)) * 2 powi e)))"

text \<open>The float operators \<open>+\<close>, \<open>-\<close>, \<open>*\<close> and \<open>/\<close> (the last for a non-zero divisor).\<close>

definition float_add :: "real \<Rightarrow> real \<Rightarrow> real" where
  "float_add a b = to_double (a + b)"

definition float_sub :: "real \<Rightarrow> real \<Rightarrow> real" where
  "float_sub a b = to_double (a - b)"

definition float_mul :: "real \<Rightarrow> real \<Rightarrow> real" where
  "float_mul a b = to_double (a * b)"

definition float_div :: "real \<Rightarrow> real \<Rightarrow> real" where
  "float_div a b = to_double (a / b)"

subsection \<open>Python built-ins used by the source\<close>

text \<open>\<open>d.get(k, default)\<close>.\<close>

definition dict_get :: "('k \<rightharpoonup> 'v) \<Rightarrow> 'k \<Rightarrow> 'v \<Rightarrow> 'v" where
  "dict_get d k dflt = (case d k of None \<Rightarrow> dflt | Some v \<Rightarrow> v)"

text \<open>\<open>int(x)\<close> on a float drops the fractional part.\<close>

definition py_int :: "real \<Rightarrow> int" where
  "py_int x = (if x < 0 then \<lceil>x\<rceil> else \<lfloor>x\<rfloor>)"

text \<open>
  \<open>round(x, ndigits)\<close> on a float: the exact value of \<open>x\<close> is rounded to the nearest
  multiple of \<open>10 ** -ndigits\<close>, a value exactly half way going to the even neighbour,
  and the result is the double nearest that decimal.
\<close>

definition py_round :: "real \<Rightarrow> nat \<Rightarrow> real" where
  "py_round x ndigits =
     to_double (of_int (round_half_even (x * 10 ^ ndigits)) / 10 ^ ndigits)"

text \<open>\<open>a / b\<close> raises \<open>ZeroDivisionError\<close> when \<open>b\<close> is zero.\<close>

definition py_truediv :: "real \<Rightarrow> real \<Rightarrow> py_error + real" where
  "py_truediv a b = (if b = 0 then Inl ZeroDivisionError else Inr (float_div a b))"

subsection \<open>\<open>calculate_damage\<close>\<close>

text \<open>
  Lines 64 to 71: the resistance for the damage type, zero when the dictionary has no
  entry, plus, for physical damage only, the armor left after penetration.
\<close>

definition total_reduction :: "Attacker \<Rightarrow> Defender \<Rightarrow> DamageType \<Rightarrow> real" where
  "total_reduction atk dfn dtype =
     (let resistance = dict_get (resistances dfn) dtype 0
      in if dtype = PHYSICAL
         then (let effective_armor =
                     float_mul (armor dfn) (float_sub 1 (armor_penetration atk))
               in float_add effective_armor resistance)
         else resistance)"

text \<open>
  Lines 74 to 78. The divisor of the first branch is at least 100 and that of the second
  is the constant 100, so neither division can raise.
\<close>

definition reduction_percent :: "real \<Rightarrow> real" where
  "reduction_percent tr =
     (if tr \<ge> 0 then float_div tr (float_add tr 100) else float_div tr 100)"

text \<open>
  Lines 51 to 95. \<open>random.random()\<close> is the one effect besides the log: its result, a
  double in \<open>[0, 1)\<close>, is the argument \<open>rnd\<close>. The arguments \<open>attacker\<close>, \<open>defender\<close>
  and \<open>damage_type\<close> are written \<open>atk\<close>, \<open>dfn\<close> and \<open>dtype\<close>, since the result's fields
  have taken their names. The function returns the result together
  with the calculator whose log has the result appended.
\<close>

definition calculate_damage ::
  "DamageCalculator \<Rightarrow> real \<Rightarrow> Attacker \<Rightarrow> Defender \<Rightarrow> DamageType \<Rightarrow> real
     \<Rightarrow> DamageResult \<times> DamageCalculator" where
  "calculate_damage self rnd atk dfn dtype skill_multiplier =
     (let base = float_mul (Attacker.base_damage atk) skill_multiplier;
          is_crit = (rnd < crit_chance atk);
          crit_damage = (if is_crit then float_mul base (crit_multiplier atk) else base);
          (final, reduc) =
            (if dtype = TRUE then (crit_damage, 0)
             else (let reduc = float_mul crit_damage
                         (reduction_percent (total_reduction atk dfn dtype))
                   in (max 0 (float_sub crit_damage reduc), reduc)));
          result = \<lparr>attacker = Attacker.name atk,
                    defender = Defender.name dfn,
                    base_damage = base,
                    is_critical = is_crit,
                    damage_after_crit = crit_damage,
                    damage_type = DamageType_value dtype,
                    reduction = reduc,
                    final_damage = py_round final 2\<rparr>
      in (result, self\<lparr>damage_log := damage_log self @ [result]\<rparr>))"

subsection \<open>\<open>calculate_dot\<close>\<close>

text \<open>
  Lines 110 to 118. The quotient is a double; \<open>num_ticks\<close> is an \<open>int\<close>, which the
  product with the float \<open>base_tick_damage\<close> converts to a double first. The method
  never touches \<open>self.damage_log\<close>: the calculator comes back as it went in, also when
  the division raises.
\<close>

definition calculate_dot ::
  "DamageCalculator \<Rightarrow> real \<Rightarrow> real \<Rightarrow> real \<Rightarrow> (py_error + DotResult) \<times> DamageCalculator" where
  "calculate_dot self base_tick_damage dur tick_rate =
     (case py_truediv dur tick_rate of
        Inl e \<Rightarrow> (Inl e, self)
      | Inr q \<Rightarrow>
          (let ticks = py_int q;
               total_dmg = float_mul base_tick_damage (to_double (of_int ticks))
           in (Inr \<lparr>tick_damage = base_tick_damage,
                    num_ticks = ticks,
                    total_damage = total_dmg,
                    duration = dur\<rparr>, self)))"

subsection \<open>Inputs of the examples\<close>

text \<open>
  The attacker of the source's example, with the base damage and the critical chance
  left open; its armor penetration is the double written \<open>0.2\<close>.
\<close>

definition warrior :: "real \<Rightarrow> real \<Rightarrow> Attacker" where
  "warrior dmg chance =
     \<lparr>Attacker.name = ''Warrior'', base_damage = dmg, crit_chance = chance,
      crit_multiplier = 5 / 2, armor_penetration = 3602879701896397 / 2 ^ 54\<rparr>"

definition goblin :: "real \<Rightarrow> (DamageType \<rightharpoonup> real) \<Rightarrow> Defender" where
  "goblin arm res = \<lparr>Defender.name = ''Goblin'', armor = arm, resistances = res\<rparr>"

section \<open>Binary64 rounding\<close>

lemma pow2_int_pred: "0 < L \<Longrightarrow> (2::real) powi (int L - 1) = 2 ^ (L - 1)"
proof -
  assume "0 < L"
  then have "int L - 1 = int (L - 1)" by simp
  then show ?thesis by (simp only: power_int_of_nat)
qed

lemma pow2_int_succ: "(2::real) powi (int L - 1 + 1) = 2 ^ L"
  by simp

lemma pow2_neg_int: "(2::real) powi (- int L) = 1 / 2 ^ L"
  by (simp add: power_int_minus_divide)

lemma pow2_neg_int_succ: "0 < L \<Longrightarrow> (2::real) powi (- int L + 1) = 1 / 2 ^ (L - 1)"
proof -
  assume "0 < L"
  then have "- int L + 1 = - int (L - 1)" by simp
  then show ?thesis by (simp only: power_int_minus_divide power_int_of_nat)
qed

lemma inverse_le_pow2: "0 < x \<Longrightarrow> 1 / x \<le> (2::real) ^ L \<Longrightarrow> 1 / 2 ^ L \<le> x"
  by (simp add: field_simps)

lemma pow2_less_inverse: "0 < x \<Longrightarrow> (2::real) ^ (L - 1) < 1 / x \<Longrightarrow> x < 1 / 2 ^ (L - 1)"
  by (simp add: field_simps)

lemma binade_ge1:
  assumes "1 \<le> x"
  shows "2 powi (binade x) \<le> x \<and> x < 2 powi (binade x + 1)"
proof -
  define n where "n = nat \<lfloor>x\<rfloor>"
  from assms have "1 \<le> \<lfloor>x\<rfloor>" by simp
  then have n: "0 < n" and nf: "int n = \<lfloor>x\<rfloor>" by (simp_all add: n_def)
  define L where "L = floorlog 2 n"
  from floorlog_bounds[of n 2] n have b: "2 ^ (L - 1) \<le> n" "n < 2 ^ L"
    by (simp_all add: L_def)
  from n have Lpos: "0 < L" unfolding L_def by (simp add: floorlog_def)
  have k: "binade x = int L - 1"
    unfolding binade_def L_def n_def using assms by simp
  have "real_of_int \<lfloor>x\<rfloor> \<le> x" "x < real_of_int \<lfloor>x\<rfloor> + 1" by linarith+
  then have nx: "real n \<le> x" "x < real n + 1"
    unfolding nf[symmetric] by simp_all
  from b(1) have "real (2 ^ (L - 1)) \<le> real n" by (simp only: of_nat_le_iff)
  then have "(2::real) ^ (L - 1) \<le> real n" by simp
  with nx have lo: "(2::real) ^ (L - 1) \<le> x" by linarith
  from b(2) have "n + 1 \<le> 2 ^ L" by simp
  then have "real (n + 1) \<le> real (2 ^ L)" by (simp only: of_nat_le_iff)
  then have "real n + 1 \<le> (2::real) ^ L" by simp
  with nx have hi: "x < (2::real) ^ L" by linarith
  show ?thesis
    unfolding k pow2_int_pred[OF Lpos] pow2_int_succ using lo hi by simp
qed

lemma binade_lt1:
  assumes "0 < x" "x < 1"
  shows "2 powi (binade x) \<le> x \<and> x < 2 powi (binade x + 1)"
proof -
  define y where "y = 1 / x"
  from assms have y: "1 < y" by (simp add: y_def)
  then have "1 < \<lceil>y\<rceil>" by (simp add: less_ceiling_iff)
  define n where "n = nat (\<lceil>y\<rceil> - 1)"
  from \<open>1 < \<lceil>y\<rceil>\<close> have n: "0 < n" and nf: "int n = \<lceil>y\<rceil> - 1" by (simp_all add: n_def)
  define L where "L = floorlog 2 n"
  from floorlog_bounds[of n 2] n have b: "2 ^ (L - 1) \<le> n" "n < 2 ^ L"
    by (simp_all add: L_def)
  from n have Lpos: "0 < L" unfolding L_def by (simp add: floorlog_def)
  have k: "binade x = - int L"
    unfolding binade_def L_def n_def y_def using assms by simp
  from b(1) have "int (2 ^ (L - 1)) \<le> int n" by (simp only: of_nat_le_iff)
  then have "(2::int) ^ (L - 1) \<le> int n" by simp
  with nf have "(2::int) ^ (L - 1) < \<lceil>y\<rceil>" by linarith
  then have "real_of_int (2 ^ (L - 1)) < y" by (simp only: less_ceiling_iff)
  then have lo: "(2::real) ^ (L - 1) < 1 / x" by (simp add: y_def)
  from b(2) have "int n < int (2 ^ L)" by (simp only: of_nat_less_iff)
  then have "int n < (2::int) ^ L" by simp
  with nf have "\<lceil>y\<rceil> \<le> (2::int) ^ L" by linarith
  then have "y \<le> real_of_int (2 ^ L)" by (simp only: ceiling_le_iff)
  then have hi: "1 / x \<le> (2::real) ^ L" by (simp add: y_def)
  from inverse_le_pow2[OF assms(1) hi] pow2_less_inverse[OF assms(1) lo]
  show ?thesis unfolding k pow2_neg_int pow2_neg_int_succ[OF Lpos] by simp
qed

lemma binade_bounds:
  assumes "0 < x"
  shows "2 powi (binade x) \<le> x" "x < 2 powi (binade x + 1)"
  using binade_ge1[of x] binade_lt1[of x] assms by (cases "1 \<le> x"; simp)+

lemma binade_unique:
  assumes "2 powi k \<le> x" "x < 2 powi (k + 1)"
  shows "binade x = k"
proof -
  have "(0::real) < 2 powi k" by simp
  with assms have x: "0 < x" by linarith
  note b = binade_bounds[OF x]
  have 1: "(2::real) powi k < 2 powi (binade x + 1)" using assms(1) b(2) by linarith
  have "k < binade x + 1"
  proof (rule ccontr)
    assume "\<not> k < binade x + 1"
    then have "binade x + 1 \<le> k" by simp
    then have "(2::real) powi (binade x + 1) \<le> 2 powi k"
      by (rule power_int_increasing) simp
    with 1 show False by linarith
  qed
  have 2: "(2::real) powi (binade x) < 2 powi (k + 1)" using assms(2) b(1) by linarith
  have "binade x < k + 1"
  proof (rule ccontr)
    assume "\<not> binade x < k + 1"
    then have "k + 1 \<le> binade x" by simp
    then have "(2::real) powi (k + 1) \<le> 2 powi (binade x)"
      by (rule power_int_increasing) simp
    with 2 show False by linarith
  qed
  with \<open>k < binade x + 1\<close> show ?thesis by simp
qed

lemma round_half_even_bounds:
  "\<lfloor>x\<rfloor> \<le> round_half_even x" "round_half_even x \<le> \<lfloor>x\<rfloor> + 1"
  by (simp_all add: round_half_even_def Let_def)

lemma round_half_even_mono:
  assumes "x \<le> y"
  shows "round_half_even x \<le> round_half_even y"
proof (cases "\<lfloor>x\<rfloor> = \<lfloor>y\<rfloor>")
  case True
  with assms show ?thesis
    by (auto simp: round_half_even_def Let_def)
next
  case False
  from assms have "\<lfloor>x\<rfloor> \<le> \<lfloor>y\<rfloor>" by (rule floor_mono)
  with False have "\<lfloor>x\<rfloor> + 1 \<le> \<lfloor>y\<rfloor>" by simp
  with round_half_even_bounds(2)[of x] round_half_even_bounds(1)[of y]
  show ?thesis by linarith
qed

lemma round_half_even_of_int: "round_half_even (of_int n) = n"
  by (simp add: round_half_even_def)

lemma to_double_zero: "to_double 0 = 0"
  by (simp add: to_double_def)

lemma to_double_minus: "to_double (- x) = - to_double x"
  by (simp add: to_double_def Let_def sgn_minus)

lemma to_double_pos_eval:
  assumes "2 powi k \<le> x" "x < 2 powi (k + 1)"
  shows "to_double x = of_int (round_half_even (x / 2 powi (k - 52))) * 2 powi (k - 52)"
proof -
  have "(0::real) < 2 powi k" by simp
  with assms(1) have x: "0 < x" by linarith
  from assms have k: "binade x = k" by (rule binade_unique)
  from x have ax: "\<bar>x\<bar> = x" and sx: "sgn x = 1" and nz: "(x = 0) = False" by simp_all
  show ?thesis unfolding to_double_def Let_def ax k sx nz by simp
qed

lemma pow2_ratio:
  "(2::real) powi k / 2 powi (k - 52) = 2 ^ 52"
  "(2::real) powi (k + 1) / 2 powi (k - 52) = 2 ^ 53"
proof -
  have "(2::real) powi k / 2 powi (k - 52) = 2 powi (k - (k - 52))"
    by (rule power_int_diff[symmetric]) simp
  then show "(2::real) powi k / 2 powi (k - 52) = 2 ^ 52" by simp
  have "(2::real) powi (k + 1) / 2 powi (k - 52) = 2 powi (k + 1 - (k - 52))"
    by (rule power_int_diff[symmetric]) simp
  then show "(2::real) powi (k + 1) / 2 powi (k - 52) = 2 ^ 53" by simp
qed

lemma mantissa_bounds:
  assumes "2 powi k \<le> x" "x < 2 powi (k + 1)"
  shows "2 ^ 52 \<le> round_half_even (x / 2 powi (k - 52))"
    and "round_half_even (x / 2 powi (k - 52)) \<le> 2 ^ 53"
proof -
  have p: "(0::real) < 2 powi (k - 52)" by simp
  from assms(1) have "2 powi k / 2 powi (k - 52) \<le> x / 2 powi (k - 52)"
    using p by (intro divide_right_mono) simp_all
  then have "real_of_int (2 ^ 52) \<le> x / 2 powi (k - 52)"
    unfolding pow2_ratio by simp
  then have "round_half_even (real_of_int (2 ^ 52)) \<le> round_half_even (x / 2 powi (k - 52))"
    by (rule round_half_even_mono)
  then show "2 ^ 52 \<le> round_half_even (x / 2 powi (k - 52))"
    by (simp only: round_half_even_of_int)
  from assms(2) have "x / 2 powi (k - 52) \<le> 2 powi (k + 1) / 2 powi (k - 52)"
    using p by (intro divide_right_mono) simp_all
  then have "x / 2 powi (k - 52) \<le> real_of_int (2 ^ 53)"
    unfolding pow2_ratio by simp
  then have "round_half_even (x / 2 powi (k - 52)) \<le> round_half_even (real_of_int (2 ^ 53))"
    by (rule round_half_even_mono)
  then show "round_half_even (x / 2 powi (k - 52)) \<le> 2 ^ 53"
    by (simp only: round_half_even_of_int)
qed

lemma to_double_pos_bounds:
  assumes "2 powi k \<le> x" "x < 2 powi (k + 1)"
  shows "2 powi k \<le> to_double x" "to_double x \<le> 2 powi (k + 1)"
proof -
  let ?m = "round_half_even (x / 2 powi (k - 52))"
  have p: "(0::real) < 2 powi (k - 52)" by simp
  note m = mantissa_bounds[OF assms]
  have e: "to_double x = real_of_int ?m * 2 powi (k - 52)"
    using assms by (rule to_double_pos_eval)
  have a: "(2::real) ^ 52 * 2 powi (k - 52) = 2 powi k"
    using pow2_ratio(1)[of k] by (simp add: field_simps)
  have b: "(2::real) ^ 53 * 2 powi (k - 52) = 2 powi (k + 1)"
    using pow2_ratio(2)[of k] by (simp add: field_simps)
  from m(1) have "real_of_int (2 ^ 52) \<le> real_of_int ?m" by (simp only: of_int_le_iff)
  then have "(2::real) ^ 52 * 2 powi (k - 52) \<le> real_of_int ?m * 2 powi (k - 52)"
    using p by (intro mult_right_mono) simp_all
  then show "2 powi k \<le> to_double x" unfolding e a .
  from m(2) have "real_of_int ?m \<le> real_of_int (2 ^ 53)" by (simp only: of_int_le_iff)
  then have "real_of_int ?m * 2 powi (k - 52) \<le> (2::real) ^ 53 * 2 powi (k - 52)"
    using p by (intro mult_right_mono) simp_all
  then show "to_double x \<le> 2 powi (k + 1)" unfolding e b .
qed

lemma to_double_pos: "0 < x \<Longrightarrow> 0 < to_double x"
proof -
  assume x: "0 < x"
  from to_double_pos_bounds(1)[OF binade_bounds[OF x]]
  have "2 powi (binade x) \<le> to_double x" .
  moreover have "(0::real) < 2 powi (binade x)" by simp
  ultimately show ?thesis by linarith
qed

lemma to_double_nonneg: "0 \<le> x \<Longrightarrow> 0 \<le> to_double x"
  using to_double_pos[of x] by (cases "x = 0") (simp_all add: to_double_zero)

lemma to_double_nonpos: "x \<le> 0 \<Longrightarrow> to_double x \<le> 0"
  using to_double_nonneg[of "- x"] by (simp add: to_double_minus)

lemma to_double_mono_pos:
  assumes "0 < x" "x \<le> y"
  shows "to_double x \<le> to_double y"
proof -
  from assms have y: "0 < y" by linarith
  note bx = binade_bounds[OF assms(1)] and bY = binade_bounds[OF y]
  have le: "binade x \<le> binade y"
  proof (rule ccontr)
    assume "\<not> binade x \<le> binade y"
    then have "binade y + 1 \<le> binade x" by simp
    then have "(2::real) powi (binade y + 1) \<le> 2 powi (binade x)"
      by (rule power_int_increasing) simp
    with bx(1) bY(2) assms(2) show False by linarith
  qed
  show ?thesis
  proof (cases "binade x = binade y")
    case True
    have p: "(0::real) < 2 powi (binade y - 52)" by simp
    from assms(2) have "x / 2 powi (binade y - 52) \<le> y / 2 powi (binade y - 52)"
      using p by (intro divide_right_mono) simp_all
    then have "round_half_even (x / 2 powi (binade y - 52))
        \<le> round_half_even (y / 2 powi (binade y - 52))"
      by (rule round_half_even_mono)
    then have "real_of_int (round_half_even (x / 2 powi (binade y - 52)))
        \<le> real_of_int (round_half_even (y / 2 powi (binade y - 52)))"
      by (simp only: of_int_le_iff)
    then have "real_of_int (round_half_even (x / 2 powi (binade y - 52))) * 2 powi (binade y - 52)
        \<le> real_of_int (round_half_even (y / 2 powi (binade y - 52))) * 2 powi (binade y - 52)"
      using p by (intro mult_right_mono) simp_all
    then show ?thesis
      using to_double_pos_eval[OF bY] to_double_pos_eval[OF bx] True by simp
  next
    case False
    with le have "binade x + 1 \<le> binade y" by simp
    then have "(2::real) powi (binade x + 1) \<le> 2 powi (binade y)"
      by (rule power_int_increasing) simp
    with to_double_pos_bounds(2)[OF bx] to_double_pos_bounds(1)[OF bY]
    show ?thesis by linarith
  qed
qed

lemma to_double_mono:
  assumes "x \<le> y"
  shows "to_double x \<le> to_double y"
proof -
  consider "0 < x" | "x \<le> 0" "0 \<le> y" | "y < 0" by linarith
  then show ?thesis
  proof cases
    case 1
    then show ?thesis using assms by (rule to_double_mono_pos)
  next
    case 2
    then show ?thesis using to_double_nonpos[of x] to_double_nonneg[of y] by linarith
  next
    case 3
    then have "0 < - y" "- y \<le> - x" using assms by simp_all
    then have "to_double (- y) \<le> to_double (- x)" by (rule to_double_mono_pos)
    then show ?thesis by (simp add: to_double_minus)
  qed
qed

lemma pow2_less_cancel:
  assumes "(2::real) powi a < 2 powi b"
  shows "a < b"
proof (rule ccontr)
  assume "\<not> a < b"
  then have "b \<le> a" by simp
  then have "(2::real) powi b \<le> 2 powi a" by (rule power_int_increasing) simp
  with assms show False by linarith
qed

lemma pow2_split: "e' \<le> e \<Longrightarrow> (2::real) powi e = 2 ^ nat (e - e') * 2 powi e'"
proof -
  assume "e' \<le> e"
  then have "(2::real) powi e = 2 powi (int (nat (e - e')) + e')" by simp
  also have "\<dots> = 2 powi int (nat (e - e')) * 2 powi e'"
    by (rule power_int_add) simp
  finally show ?thesis by (simp only: power_int_of_nat)
qed

lemma to_double_dyadic_pos:
  assumes "0 < m" "m < 2 ^ 53"
  shows "to_double (of_int m * 2 powi e) = of_int m * 2 powi e"
proof -
  define x where "x = real_of_int m * 2 powi e"
  have p: "(0::real) < 2 powi e" by simp
  from assms(1) have x: "0 < x" unfolding x_def using p by simp
  note b = binade_bounds[OF x]
  define k where "k = binade x"
  from assms(2) have "real_of_int m < real_of_int (2 ^ 53)" by (simp only: of_int_less_iff)
  then have "real_of_int m * 2 powi e < 2 ^ 53 * 2 powi e"
    using p by simp
  also have "(2::real) ^ 53 * 2 powi e = 2 powi (53 + e)"
    using power_int_add[of "2::real" 53 e] by simp
  finally have "x < 2 powi (53 + e)" unfolding x_def .
  with b(1) have "(2::real) powi k < 2 powi (53 + e)" unfolding k_def by linarith
  then have "k < 53 + e" by (rule pow2_less_cancel)
  then have le: "k - 52 \<le> e" by simp
  define j where "j = nat (e - (k - 52))"
  have s: "(2::real) powi e = 2 ^ j * 2 powi (k - 52)"
    unfolding j_def using le by (rule pow2_split)
  have "x / 2 powi (k - 52) = real_of_int m * 2 ^ j"
    unfolding x_def s by simp
  also have "\<dots> = real_of_int (m * 2 ^ j)" by simp
  finally have z: "x / 2 powi (k - 52) = real_of_int (m * 2 ^ j)" .
  have "to_double x = real_of_int (round_half_even (x / 2 powi (k - 52))) * 2 powi (k - 52)"
    using b unfolding k_def by (rule to_double_pos_eval)
  also have "\<dots> = real_of_int (m * 2 ^ j) * 2 powi (k - 52)"
    unfolding z round_half_even_of_int ..
  also have "\<dots> = real_of_int m * (2 ^ j * 2 powi (k - 52))" by simp
  also have "\<dots> = x" unfolding x_def s ..
  finally show ?thesis unfolding x_def .
qed

lemma to_double_dyadic_nonneg:
  assumes "0 \<le> m" "m \<le> 2 ^ 53"
  shows "to_double (of_int m * 2 powi e) = of_int m * 2 powi e"
proof -
  consider "m = 0" | "0 < m" "m < 2 ^ 53" | "m = 2 ^ 53" using assms by linarith
  then show ?thesis
  proof cases
    case 1
    then show ?thesis by (simp add: to_double_zero)
  next
    case 2
    then show ?thesis by (rule to_double_dyadic_pos)
  next
    case 3
    have "(2::real) powi (1 + e) = 2 * 2 powi e"
      using power_int_add[of "2::real" 1 e] by simp
    then have "real_of_int m * 2 powi e = real_of_int (2 ^ 52) * 2 powi (1 + e)"
      unfolding 3 by simp
    moreover have "to_double (real_of_int (2 ^ 52) * 2 powi (1 + e))
        = real_of_int (2 ^ 52) * 2 powi (1 + e)"
      by (rule to_double_dyadic_pos) simp_all
    ultimately show ?thesis by simp
  qed
qed

lemma to_double_dyadic:
  assumes "\<bar>m\<bar> \<le> 2 ^ 53"
  shows "to_double (of_int m * 2 powi e) = of_int m * 2 powi e"
proof (cases "0 \<le> m")
  case True
  with assms show ?thesis by (intro to_double_dyadic_nonneg) simp_all
next
  case False
  with assms have "to_double (of_int (- m) * 2 powi e) = of_int (- m) * 2 powi e"
    by (intro to_double_dyadic_nonneg) simp_all
  then have "to_double (- (of_int m * 2 powi e)) = - (of_int m * 2 powi e)" by simp
  then show ?thesis by (simp only: to_double_minus neg_equal_iff_equal)
qed

lemma to_double_of_int: "\<bar>m\<bar> \<le> 2 ^ 53 \<Longrightarrow> to_double (of_int m) = of_int m"
  using to_double_dyadic[of m 0] by simp

lemma to_double_idem: "to_double (to_double x) = to_double x"
proof -
  have pos: "to_double (to_double y) = to_double y" if "0 < y" for y
  proof -
    note b = binade_bounds[OF that]
    note m = mantissa_bounds[OF b]
    have e: "to_double y = real_of_int (round_half_even (y / 2 powi (binade y - 52)))
        * 2 powi (binade y - 52)"
      using b by (rule to_double_pos_eval)
    show ?thesis unfolding e
      using m by (intro to_double_dyadic_nonneg) simp_all
  qed
  consider "0 < x" | "x = 0" | "x < 0" by linarith
  then show ?thesis
  proof cases
    case 1 then show ?thesis by (rule pos)
  next
    case 2 then show ?thesis by (simp add: to_double_zero)
  next
    case 3
    then have "to_double (to_double (- x)) = to_double (- x)" by (intro pos) simp
    then show ?thesis by (simp only: to_double_minus neg_equal_iff_equal)
  qed
qed

lemma to_double_scale: "to_double (x * 2 powi j) = to_double x * 2 powi j"
proof -
  have pos: "to_double (y * 2 powi j) = to_double y * 2 powi j" if "0 < y" for y
  proof -
    define k where "k = binade y"
    have b: "2 powi k \<le> y" "y < 2 powi (k + 1)"
      unfolding k_def using that by (rule binade_bounds)+
    have p: "(0::real) < 2 powi j" by simp
    have a: "(2::real) powi (k + j) = 2 powi k * 2 powi j"
      by (rule power_int_add) simp
    have e1: "k + j + 1 = (k + 1) + j" by simp
    have a1: "(2::real) powi (k + j + 1) = 2 powi (k + 1) * 2 powi j"
      unfolding e1 by (rule power_int_add) simp
    have e2: "k + j - 52 = (k - 52) + j" by simp
    have a2: "(2::real) powi (k + j - 52) = 2 powi (k - 52) * 2 powi j"
      unfolding e2 by (rule power_int_add) simp
    from b(1) have "2 powi k * 2 powi j \<le> y * 2 powi j"
      using p by (intro mult_right_mono) simp_all
    then have lo: "2 powi (k + j) \<le> y * 2 powi j" unfolding a .
    from b(2) have "y * 2 powi j < 2 powi (k + 1) * 2 powi j"
      using p by (intro mult_strict_right_mono) simp_all
    then have hi: "y * 2 powi j < 2 powi (k + j + 1)" unfolding a1 .
    have z: "y * 2 powi j / 2 powi (k + j - 52) = y / 2 powi (k - 52)"
      unfolding a2 by simp
    have "to_double (y * 2 powi j) =
        real_of_int (round_half_even (y * 2 powi j / 2 powi (k + j - 52))) * 2 powi (k + j - 52)"
      using lo hi by (rule to_double_pos_eval)
    also have "\<dots> = real_of_int (round_half_even (y / 2 powi (k - 52)))
        * (2 powi (k - 52) * 2 powi j)"
      by (simp only: z) (simp only: a2)
    also have "\<dots> = to_double y * 2 powi j"
      using to_double_pos_eval[OF b] by simp
    finally show ?thesis .
  qed
  consider "0 < x" | "x = 0" | "x < 0" by linarith
  then show ?thesis
  proof cases
    case 1 then show ?thesis by (rule pos)
  next
    case 2 then show ?thesis by (simp add: to_double_zero)
  next
    case 3
    then have "to_double (- x * 2 powi j) = to_double (- x) * 2 powi j" by (intro pos) simp
    then show ?thesis by (simp add: to_double_minus)
  qed
qed

lemma to_double_half: "to_double (x * (1 / 2)) = to_double x * (1 / 2)"
  using to_double_scale[of x "- 1"] by (simp add: power_int_minus)

section \<open>Facts about the building blocks\<close>

subsection \<open>The result of \<open>calculate_damage\<close>, field by field\<close>

lemma base_damage_eq:
  "DamageResult.base_damage (fst (calculate_damage self rnd atk dfn dtype sm)) =
     float_mul (Attacker.base_damage atk) sm"
  by (simp add: calculate_damage_def Let_def split: prod.splits)

lemma is_critical_eq:
  "is_critical (fst (calculate_damage self rnd atk dfn dtype sm)) = (rnd < crit_chance atk)"
  by (simp add: calculate_damage_def Let_def split: prod.splits)

lemma damage_after_crit_eq:
  "damage_after_crit (fst (calculate_damage self rnd atk dfn dtype sm)) =
     (if rnd < crit_chance atk
      then float_mul (float_mul (Attacker.base_damage atk) sm) (crit_multiplier atk)
      else float_mul (Attacker.base_damage atk) sm)"
  by (simp add: calculate_damage_def Let_def split: prod.splits)

lemma reduction_eq:
  "reduction (fst (calculate_damage self rnd atk dfn dtype sm)) =
     (if dtype = TRUE then 0
      else float_mul (damage_after_crit (fst (calculate_damage self rnd atk dfn dtype sm)))
             (reduction_percent (total_reduction atk dfn dtype)))"
  by (simp add: calculate_damage_def Let_def split: prod.splits)

lemma final_damage_eq:
  "final_damage (fst (calculate_damage self rnd atk dfn dtype sm)) =
     py_round
       (if dtype = TRUE then damage_after_crit (fst (calculate_damage self rnd atk dfn dtype sm))
        else max 0 (float_sub (damage_after_crit (fst (calculate_damage self rnd atk dfn dtype sm)))
                      (reduction (fst (calculate_damage self rnd atk dfn dtype sm))))) 2"
  by (simp add: calculate_damage_def Let_def split: prod.splits)

lemma calculate_damage_snd:
  "snd (calculate_damage self rnd atk dfn dtype sm) =
     self\<lparr>damage_log := damage_log self @ [fst (calculate_damage self rnd atk dfn dtype sm)]\<rparr>"
  by (simp add: calculate_damage_def Let_def split: prod.splits)

lemma damage_after_crit_double:
  "to_double (damage_after_crit (fst (calculate_damage self rnd atk dfn dtype sm))) =
     damage_after_crit (fst (calculate_damage self rnd atk dfn dtype sm))"
  by (simp add: damage_after_crit_eq float_mul_def to_double_idem)

subsection \<open>Rounding to decimals\<close>

lemma py_round_mono: "x \<le> y \<Longrightarrow> py_round x n \<le> py_round y n"
  unfolding py_round_def
  by (intro to_double_mono divide_right_mono round_half_even_mono mult_right_mono
      iffD2[OF of_int_le_iff]) simp_all

lemma py_round_zero: "py_round 0 n = 0"
  by (simp add: py_round_def round_half_even_def to_double_zero)

lemma py_round_nonneg: "0 \<le> x \<Longrightarrow> 0 \<le> py_round x n"
  using py_round_mono[of 0 x n] by (simp add: py_round_zero)

lemma py_round_exact:
  assumes "x * 10 ^ n = real_of_int k" and "to_double x = x"
  shows "py_round x n = x"
proof -
  have "real_of_int k / 10 ^ n = x" using assms(1)[symmetric] by simp
  then show ?thesis
    unfolding py_round_def assms(1) round_half_even_of_int using assms(2) by simp
qed

subsection \<open>Values at the inputs of the examples\<close>

lemma warrior_fields:
  "Attacker.name (warrior x c) = ''Warrior''"
  "Attacker.base_damage (warrior x c) = x"
  "crit_chance (warrior x c) = c"
  "crit_multiplier (warrior x c) = 5 / 2"
  "armor_penetration (warrior x c) = 3602879701896397 / 2 ^ 54"
  by (simp_all add: warrior_def)

lemma goblin_fields:
  "Defender.name (goblin a r) = ''Goblin''"
  "armor (goblin a r) = a"
  "resistances (goblin a r) = r"
  by (simp_all add: goblin_def)

lemma final_damage_nonneg_mitigated:
  "dtype \<noteq> TRUE \<Longrightarrow> 0 \<le> final_damage (fst (calculate_damage self rnd atk dfn dtype sm))"
  by (simp add: final_damage_eq py_round_nonneg)

lemma to_double_100: "to_double 100 = 100" and to_double_200: "to_double 200 = 200"
  and to_double_10: "to_double 10 = 10" and to_double_m10: "to_double (- 10) = - 10"
  and to_double_1_16: "to_double (1 / 16) = 1 / 16" and to_double_1_8: "to_double (1 / 8) = 1 / 8"
  and to_double_1_2: "to_double (1 / 2) = 1 / 2"
  using to_double_of_int[of 100] to_double_of_int[of 200] to_double_of_int[of 10]
    to_double_of_int[of "- 10"] to_double_dyadic[of 1 "- 4"] to_double_dyadic[of 1 "- 3"]
    to_double_dyadic[of 1 "- 1"]
  by simp_all

lemma to_double_3_50: "to_double (3 / 50) = 1080863910568919 / 2 ^ 54"
  using to_double_pos_eval[of "- 5" "3 / 50"] by (simp add: round_half_even_def)

lemma reduction_percent_0: "reduction_percent 0 = 0"
  by (simp add: reduction_percent_def float_div_def to_double_zero)

lemma reduction_percent_100: "reduction_percent 100 = 1 / 2"
  by (simp add: reduction_percent_def float_div_def float_add_def to_double_200 to_double_1_2)

lemma float_sub_penetration:
  "float_sub 1 (armor_penetration (warrior x c)) = 3602879701896397 / 2 ^ 52"
proof -
  have "to_double (1 - 3602879701896397 / 2 ^ 54) = 3602879701896397 / 2 ^ 52"
    using to_double_pos_eval[of "- 1" "1 - 3602879701896397 / 2 ^ 54"]
    by (simp add: round_half_even_def)
  then show ?thesis by (simp add: float_sub_def warrior_fields)
qed

lemma effective_armor_100:
  "float_mul 100 (float_sub 1 (armor_penetration (warrior x c))) = 80"
proof -
  have "to_double (100 * (3602879701896397 / 2 ^ 52)) = 80"
    using to_double_pos_eval[of 6 "100 * (3602879701896397 / 2 ^ 52)"]
    by (simp add: round_half_even_def)
  then show ?thesis by (simp add: float_mul_def float_sub_penetration)
qed

lemma effective_armor_125:
  "float_mul 125 (float_sub 1 (armor_penetration (warrior x c))) = 100"
proof -
  have "to_double (125 * (3602879701896397 / 2 ^ 52)) = 100"
    using to_double_pos_eval[of 6 "125 * (3602879701896397 / 2 ^ 52)"]
    by (simp add: round_half_even_def)
  then show ?thesis by (simp add: float_mul_def float_sub_penetration)
qed

subsection \<open>\<open>int\<close> and \<open>calculate_dot\<close>\<close>

lemma py_int_trunc:
  "\<bar>real_of_int (py_int q)\<bar> \<le> \<bar>q\<bar>"
  "\<bar>q\<bar> < \<bar>real_of_int (py_int q)\<bar> + 1"
  "0 \<le> real_of_int (py_int q) * q"
proof -
  have "\<bar>real_of_int (py_int q)\<bar> \<le> \<bar>q\<bar> \<and> \<bar>q\<bar> < \<bar>real_of_int (py_int q)\<bar> + 1
        \<and> 0 \<le> real_of_int (py_int q) * q"
  proof (cases "q < 0")
    case True
    have c: "real_of_int \<lceil>q\<rceil> - 1 < q" "q \<le> real_of_int \<lceil>q\<rceil>"
      using ceiling_correct[of q] by simp_all
    from True have n: "real_of_int \<lceil>q\<rceil> \<le> 0" by (simp add: ceiling_le_iff)
    from True n have "0 \<le> real_of_int \<lceil>q\<rceil> * q" by (simp add: mult_nonpos_nonpos)
    moreover from c n True have "\<bar>real_of_int \<lceil>q\<rceil>\<bar> \<le> \<bar>q\<bar>" "\<bar>q\<bar> < \<bar>real_of_int \<lceil>q\<rceil>\<bar> + 1"
      by linarith+
    ultimately show ?thesis using True by (simp add: py_int_def)
  next
    case False
    have f: "real_of_int \<lfloor>q\<rfloor> \<le> q" "q < real_of_int \<lfloor>q\<rfloor> + 1"
      using floor_correct[of q] by simp_all
    from False have n: "0 \<le> real_of_int \<lfloor>q\<rfloor>" by simp
    from False n have "0 \<le> real_of_int \<lfloor>q\<rfloor> * q" by simp
    moreover from f n False have "\<bar>real_of_int \<lfloor>q\<rfloor>\<bar> \<le> \<bar>q\<bar>" "\<bar>q\<bar> < \<bar>real_of_int \<lfloor>q\<rfloor>\<bar> + 1"
      by linarith+
    ultimately show ?thesis using False by (simp add: py_int_def)
  qed
  then show "\<bar>real_of_int (py_int q)\<bar> \<le> \<bar>q\<bar>"
    "\<bar>q\<bar> < \<bar>real_of_int (py_int q)\<bar> + 1"
    "0 \<le> real_of_int (py_int q) * q"
    by simp_all
qed

lemma py_int_abs_le: "\<bar>real_of_int (py_int q)\<bar> \<le> \<bar>q\<bar>"
  by (rule py_int_trunc)

lemma py_int_of_int: "py_int (real_of_int n) = n"
  by (simp add: py_int_def)

lemma to_double_repr: "\<exists>m e. \<bar>m\<bar> \<le> 2 ^ 53 \<and> to_double x = real_of_int m * 2 powi e"
proof -
  have pos: "\<exists>m e. \<bar>m\<bar> \<le> 2 ^ 53 \<and> to_double y = real_of_int m * 2 powi e" if "0 < y" for y
  proof -
    note b = binade_bounds[OF that]
    note m = mantissa_bounds[OF b]
    from m have "\<bar>round_half_even (y / 2 powi (binade y - 52))\<bar> \<le> 2 ^ 53" by simp
    with to_double_pos_eval[OF b] show ?thesis by blast
  qed
  consider "0 < x" | "x = 0" | "x < 0" by linarith
  then show ?thesis
  proof cases
    case 1 then show ?thesis by (rule pos)
  next
    case 2
    have "\<bar>0::int\<bar> \<le> 2 ^ 53 \<and> to_double x = real_of_int 0 * 2 powi 0"
      using 2 by (simp add: to_double_zero)
    then show ?thesis by blast
  next
    case 3
    then have "0 < - x" by simp
    from pos[OF this] obtain m e where
      me: "\<bar>m\<bar> \<le> 2 ^ 53" "to_double (- x) = real_of_int m * 2 powi e" by blast
    then have "\<bar>- m\<bar> \<le> 2 ^ 53 \<and> to_double x = real_of_int (- m) * 2 powi e"
      by (simp add: to_double_minus)
    then show ?thesis by blast
  qed
qed

text \<open>The integer part of a double is a double: converting it back to a float is exact.\<close>

lemma py_int_double:
  "to_double (real_of_int (py_int (to_double x))) = real_of_int (py_int (to_double x))"
proof -
  from to_double_repr[of x] obtain m e where
    me: "\<bar>m\<bar> \<le> 2 ^ 53" "to_double x = real_of_int m * 2 powi e" by blast
  show ?thesis
  proof (cases "0 \<le> e")
    case True
    then have "(2::real) powi e = real_of_int (2 ^ nat e)" by (simp add: power_int_def)
    then have "to_double x = real_of_int (m * 2 ^ nat e)" unfolding me(2) by simp
    then have "real_of_int (py_int (to_double x)) = to_double x"
      by (simp only: py_int_of_int)
    then show ?thesis by (simp only: to_double_idem)
  next
    case False
    then have "(2::real) powi e \<le> 2 powi 0" by (intro power_int_increasing) simp_all
    then have le1: "(2::real) powi e \<le> 1" by simp
    have "\<bar>to_double x\<bar> = \<bar>real_of_int m\<bar> * 2 powi e"
      unfolding me(2) by (simp add: abs_mult)
    also have "\<dots> \<le> \<bar>real_of_int m\<bar> * 1"
      using le1 by (intro mult_left_mono) simp_all
    finally have "\<bar>to_double x\<bar> \<le> \<bar>real_of_int m\<bar>" by simp
    with py_int_abs_le[of "to_double x"]
    have "\<bar>real_of_int (py_int (to_double x))\<bar> \<le> \<bar>real_of_int m\<bar>" by linarith
    then have "\<bar>py_int (to_double x)\<bar> \<le> \<bar>m\<bar>" by linarith
    with me(1) have "\<bar>py_int (to_double x)\<bar> \<le> 2 ^ 53" by linarith
    then show ?thesis by (rule to_double_of_int)
  qed
qed

lemma calculate_dot_Inr:
  "tick_rate \<noteq> 0 \<Longrightarrow>
   fst (calculate_dot self t d tick_rate) =
     Inr \<lparr>tick_damage = t, num_ticks = py_int (float_div d tick_rate),
          total_damage = float_mul t (real_of_int (py_int (float_div d tick_rate))),
          duration = d\<rparr>"
  by (simp add: calculate_dot_def py_truediv_def Let_def float_div_def py_int_double)

lemma calculate_dot_zero_tick_rate:
  "fst (calculate_dot self t d 0) = Inl ZeroDivisionError"
  by (simp add: calculate_dot_def py_truediv_def)

text \<open>
  The quotient is the double the division returns, not the exact quotient: the doubles
  \<open>0.5\<close> and \<open>0.1\<close> have an exact quotient just below 5, the division returns \<open>5.0\<close>, and
  there are 5 ticks.
\<close>

lemma calculate_dot_half_tenth:
  "fst (calculate_dot self t (1 / 2) (3602879701896397 / 2 ^ 55)) =
     Inr \<lparr>tick_damage = t, num_ticks = 5, total_damage = float_mul t 5, duration = 1 / 2\<rparr>"
proof -
  have "to_double ((1 / 2) / (3602879701896397 / 2 ^ 55)) = 5"
    using to_double_pos_eval[of 2 "(1 / 2) / (3602879701896397 / 2 ^ 55)"]
    by (simp add: round_half_even_def)
  then have "float_div (1 / 2) (3602879701896397 / 2 ^ 55) = 5"
    by (simp add: float_div_def)
  moreover have "(3602879701896397 / 2 ^ 55 :: real) \<noteq> 0" by simp
  ultimately show ?thesis
    using calculate_dot_Inr[of "3602879701896397 / 2 ^ 55" self t "1 / 2"]
    by (simp add: py_int_def)
qed

text \<open>
  Beyond \<open>2 ^ 53\<close> the quotient of two whole numbers is rounded as well: \<open>2 ^ 53 + 1\<close>
  over 1 is the double \<open>2 ^ 53\<close>, and that is the number of ticks.
\<close>

lemma calculate_dot_beyond_2_53:
  "fst (calculate_dot self t (2 ^ 53 + 1) 1) =
     Inr \<lparr>tick_damage = t, num_ticks = 2 ^ 53, total_damage = float_mul t (2 ^ 53),
          duration = 2 ^ 53 + 1\<rparr>"
proof -
  have "to_double (2 ^ 53 + 1) = 2 ^ 53"
    using to_double_pos_eval[of 53 "2 ^ 53 + 1"] by (simp add: round_half_even_def)
  then have "float_div (2 ^ 53 + 1) 1 = 2 ^ 53" by (simp add: float_div_def)
  then show ?thesis
    using calculate_dot_Inr[of 1 self t "2 ^ 53 + 1"] by (simp add: py_int_def)
qed

subsection \<open>Rounding errors\<close>

lemma round_half_even_error: "\<bar>real_of_int (round_half_even x) - x\<bar> \<le> 1 / 2"
proof -
  define d where "d = x - real_of_int \<lfloor>x\<rfloor>"
  have d: "0 \<le> d" "d < 1" unfolding d_def by linarith+
  consider "d < 1 / 2" | "1 / 2 < d" | "d = 1 / 2" "even \<lfloor>x\<rfloor>" | "d = 1 / 2" "odd \<lfloor>x\<rfloor>"
    by linarith
  then show ?thesis
  proof cases
    case 1
    then have "round_half_even x = \<lfloor>x\<rfloor>" by (simp add: round_half_even_def d_def)
    with 1 d show ?thesis unfolding d_def by linarith
  next
    case 2
    then have "round_half_even x = \<lfloor>x\<rfloor> + 1" by (simp add: round_half_even_def d_def)
    with 2 d show ?thesis unfolding d_def by auto
  next
    case 3
    then have "round_half_even x = \<lfloor>x\<rfloor>" by (simp add: round_half_even_def d_def)
    with 3 d show ?thesis unfolding d_def by linarith
  next
    case 4
    then have "round_half_even x = \<lfloor>x\<rfloor> + 1" by (simp add: round_half_even_def d_def)
    with 4 d show ?thesis unfolding d_def by auto
  qed
qed

lemma round_half_even_nonneg: "0 \<le> x \<Longrightarrow> 0 \<le> round_half_even x"
  using round_half_even_mono[of 0 x] round_half_even_of_int[of 0] by simp

lemma to_double_error: "\<bar>to_double x - x\<bar> \<le> \<bar>x\<bar> / 2 ^ 53"
proof -
  have pos: "\<bar>to_double y - y\<bar> \<le> y / 2 ^ 53" if "0 < y" for y
  proof -
    define k where "k = binade y"
    have b: "2 powi k \<le> y" "y < 2 powi (k + 1)"
      unfolding k_def using that by (rule binade_bounds)+
    define z where "z = y / 2 powi (k - 52)"
    have p: "(0::real) < 2 powi (k - 52)" by simp
    have y: "z * 2 powi (k - 52) = y" unfolding z_def by simp
    have e: "to_double y = real_of_int (round_half_even z) * 2 powi (k - 52)"
      unfolding z_def using b by (rule to_double_pos_eval)
    have "(real_of_int (round_half_even z) - z) * 2 powi (k - 52)
        = real_of_int (round_half_even z) * 2 powi (k - 52) - z * 2 powi (k - 52)"
      by (rule left_diff_distrib)
    then have "to_double y - y = (real_of_int (round_half_even z) - z) * 2 powi (k - 52)"
      by (simp only: e y)
    then have "\<bar>to_double y - y\<bar> = \<bar>real_of_int (round_half_even z) - z\<bar> * 2 powi (k - 52)"
      by (simp add: abs_mult)
    also have "\<dots> \<le> (1 / 2) * 2 powi (k - 52)"
      using round_half_even_error[of z] p by (intro mult_right_mono) simp_all
    also have "\<dots> = 2 powi k / 2 ^ 53"
    proof -
      have "(2::real) powi k = 2 ^ 52 * 2 powi (k - 52)"
        using pow2_ratio(1)[of k] by (simp add: field_simps)
      then show ?thesis by simp
    qed
    also have "\<dots> \<le> y / 2 ^ 53" using b(1) by (intro divide_right_mono) simp_all
    finally show ?thesis .
  qed
  consider "0 < x" | "x = 0" | "x < 0" by linarith
  then show ?thesis
  proof cases
    case 1 then show ?thesis using pos[of x] by simp
  next
    case 2 then show ?thesis by (simp add: to_double_zero)
  next
    case 3
    then have "\<bar>to_double (- x) - (- x)\<bar> \<le> (- x) / 2 ^ 53" by (intro pos) simp
    moreover have "\<bar>to_double (- x) - (- x)\<bar> = \<bar>to_double x - x\<bar>"
      unfolding to_double_minus by simp
    ultimately show ?thesis using 3 by simp
  qed
qed

lemma py_round_error:
  assumes "0 \<le> x"
  shows "\<bar>py_round x 2 - x\<bar> \<le> 1 / 200 + (x + 1 / 200) / 2 ^ 53"
proof -
  define n where "n = round_half_even (x * 100)"
  define v where "v = real_of_int n / 100"
  from assms have "0 \<le> x * 100" by simp
  then have "0 \<le> n" unfolding n_def by (rule round_half_even_nonneg)
  then have v0: "0 \<le> v" unfolding v_def by simp
  from round_half_even_error[of "x * 100"] have "\<bar>real_of_int n - x * 100\<bar> \<le> 1 / 2"
    unfolding n_def .
  then have vx: "\<bar>v - x\<bar> \<le> 1 / 200" unfolding v_def by linarith
  have pr: "py_round x 2 = to_double v" unfolding py_round_def v_def n_def by simp
  from to_double_error[of v] v0 have tv: "\<bar>to_double v - v\<bar> \<le> v / 2 ^ 53" by simp
  from vx have "v \<le> x + 1 / 200" by linarith
  then have "v / 2 ^ 53 \<le> (x + 1 / 200) / 2 ^ 53" by (intro divide_right_mono) simp_all
  with tv vx show ?thesis unfolding pr by linarith
qed

subsection \<open>The fraction for a resistance of -20\<close>

lemma to_double_fifth: "to_double (1 / 5) = 3602879701896397 / 2 ^ 54"
  using to_double_pos_eval[of "- 3" "1 / 5"] by (simp add: round_half_even_def)

lemma reduction_percent_m20: "reduction_percent (- 20) = - (3602879701896397 / 2 ^ 54)"
proof -
  have "to_double (- (1 / 5)) = - (3602879701896397 / 2 ^ 54)"
    unfolding to_double_minus to_double_fifth ..
  then show ?thesis by (simp add: reduction_percent_def float_div_def)
qed

lemma rounding_chain:
  fixes c s u f :: real
  assumes "\<bar>s - c * (3602879701896397 / 2 ^ 54)\<bar> \<le> c * (3602879701896397 / 2 ^ 54) / 2 ^ 53"
    and "\<bar>u - (c + s)\<bar> \<le> (c + s) / 2 ^ 53"
    and "\<bar>f - u\<bar> \<le> 1 / 200 + (u + 1 / 200) / 2 ^ 53"
    and "0 \<le> c"
  shows "\<bar>f - c * (6 / 5)\<bar> \<le> 1 / 200 + (c + 1) / 2 ^ 50"
proof -
  define h where "h = c / 2 ^ 54"
  define k :: real where "k = 1 / 2 ^ 53"
  have h0: "0 \<le> h" unfolding h_def using assms(4) by simp
  have k0: "0 \<le> k" unfolding k_def by simp
  have hc: "16 * h \<le> c" unfolding h_def using assms(4) by simp
  have a1: "c * (3602879701896397 / 2 ^ 54) \<le> c / 5 + h"
    unfolding h_def using assms(4) by simp
  have a2: "c / 5 \<le> c * (3602879701896397 / 2 ^ 54)" using assms(4) by simp
  have a3: "c * (3602879701896397 / 2 ^ 54) / 2 ^ 53 \<le> h"
    unfolding h_def using assms(4) by simp
  from assms(1) a1 a2 a3 have s1: "s \<le> c / 5 + 2 * h" "c / 5 - h \<le> s"
    by linarith+
  from s1 hc h0 have s2: "c + s \<le> 2 * c" "0 \<le> c + s" by linarith+
  from s2(1) have "(c + s) / 2 ^ 53 \<le> 2 * c / 2 ^ 53" by (intro divide_right_mono) simp_all
  also have "\<dots> = 4 * h" unfolding h_def by simp
  finally have w: "(c + s) / 2 ^ 53 \<le> 4 * h" .
  with assms(2) have u1: "u \<le> c + s + 4 * h" "c + s - 4 * h \<le> u" by linarith+
  from u1 s2 hc h0 have "u \<le> 3 * c" by linarith
  then have "u + 1 / 200 \<le> 3 * c + 1" by simp
  then have "(u + 1 / 200) / 2 ^ 53 \<le> (3 * c + 1) / 2 ^ 53"
    by (intro divide_right_mono) simp_all
  also have "\<dots> = 6 * h + k" unfolding h_def k_def by (simp add: add_divide_distrib)
  finally have v: "(u + 1 / 200) / 2 ^ 53 \<le> 6 * h + k" .
  have g: "(c + 1) / 2 ^ 50 = 16 * h + 8 * k"
    unfolding h_def k_def by (simp add: add_divide_distrib)
  have c5: "c * (6 / 5) = c + c / 5" by simp
  from assms(3) v u1 s1 h0 k0 show ?thesis unfolding g c5 by linarith
qed

text \<open>
  The mitigated damage for the fraction \<open>-0.2\<close>: the product and the difference are
  each rounded to a double, and the result is rounded to two decimal places.
\<close>

lemma amplified_bound:
  assumes "0 \<le> c"
  shows "\<bar>py_round (max 0 (float_sub c (float_mul c (- (3602879701896397 / 2 ^ 54))))) 2
          - c * (6 / 5)\<bar> \<le> 1 / 200 + (c + 1) / 2 ^ 50"
proof -
  define a :: real where "a = 3602879701896397 / 2 ^ 54"
  define s where "s = to_double (c * a)"
  define u where "u = to_double (c + s)"
  have ca: "0 \<le> c * a" using assms by (simp add: a_def)
  then have s0: "0 \<le> s" unfolding s_def by (rule to_double_nonneg)
  from to_double_error[of "c * a"] ca have es: "\<bar>s - c * a\<bar> \<le> c * a / 2 ^ 53"
    unfolding s_def by simp
  from assms s0 have w0: "0 \<le> c + s" by simp
  then have u0: "0 \<le> u" unfolding u_def by (rule to_double_nonneg)
  from to_double_error[of "c + s"] w0 have eu: "\<bar>u - (c + s)\<bar> \<le> (c + s) / 2 ^ 53"
    unfolding u_def by simp
  have "float_mul c (- a) = - s"
    unfolding float_mul_def s_def using to_double_minus[of "c * a"] by simp
  then have "float_sub c (float_mul c (- a)) = u"
    unfolding float_sub_def u_def by simp
  then have m: "max 0 (float_sub c (float_mul c (- a))) = u" using u0 by simp
  from py_round_error[OF u0] have ef: "\<bar>py_round u 2 - u\<bar> \<le> 1 / 200 + (u + 1 / 200) / 2 ^ 53" .
  have "\<bar>py_round u 2 - c * (6 / 5)\<bar> \<le> 1 / 200 + (c + 1) / 2 ^ 50"
    using es[unfolded a_def] eu ef assms by (rule rounding_chain)
  then show ?thesis unfolding m[unfolded a_def] .
qed

lemma amplified_nonpos:
  assumes "c \<le> 0"
  shows "py_round (max 0 (float_sub c (float_mul c (- (3602879701896397 / 2 ^ 54))))) 2 = 0"
proof -
  from assms have "0 \<le> c * (- (3602879701896397 / 2 ^ 54))"
    by (simp add: mult_nonpos_nonpos)
  then have "0 \<le> float_mul c (- (3602879701896397 / 2 ^ 54))"
    unfolding float_mul_def by (rule to_double_nonneg)
  with assms have "c - float_mul c (- (3602879701896397 / 2 ^ 54)) \<le> 0" by linarith
  then have "float_sub c (float_mul c (- (3602879701896397 / 2 ^ 54))) \<le> 0"
    unfolding float_sub_def by (rule to_double_nonpos)
  then have "max 0 (float_sub c (float_mul c (- (3602879701896397 / 2 ^ 54)))) = 0" by simp
  then show ?thesis by (simp only: py_round_zero)
qed

subsection \<open>Ice hits on the goblin of the example\<close>

lemma ice_hit_100:
  "final_damage (fst (calculate_damage DamageCalculator_init (1 / 2) (warrior 100 0)
      (goblin 50 [FIRE \<mapsto> 30, ICE \<mapsto> - 20]) ICE 1)) = 120"
proof -
  have s: "to_double (100 * (3602879701896397 / 2 ^ 54)) = 20"
    using to_double_pos_eval[of 4 "100 * (3602879701896397 / 2 ^ 54)"]
    by (simp add: round_half_even_def)
  have u: "to_double 120 = 120" using to_double_of_int[of 120] by simp
  have t: "total_reduction (warrior 100 0) (goblin 50 [FIRE \<mapsto> 30, ICE \<mapsto> - 20]) ICE = - 20"
    by (simp add: total_reduction_def goblin_fields dict_get_def)
  have m: "float_mul 100 (- (3602879701896397 / 2 ^ 54)) = - 20"
    using s to_double_minus[of "100 * (3602879701896397 / 2 ^ 54)"]
    by (simp add: float_mul_def)
  have d: "damage_after_crit (fst (calculate_damage DamageCalculator_init (1 / 2) (warrior 100 0)
      (goblin 50 [FIRE \<mapsto> 30, ICE \<mapsto> - 20]) ICE 1)) = 100"
    by (simp add: damage_after_crit_eq warrior_fields float_mul_def to_double_100)
  have r: "reduction (fst (calculate_damage DamageCalculator_init (1 / 2) (warrior 100 0)
      (goblin 50 [FIRE \<mapsto> 30, ICE \<mapsto> - 20]) ICE 1)) = - 20"
    unfolding reduction_eq d t reduction_percent_m20 using m by simp
  show ?thesis
    unfolding final_damage_eq d r using u
    by (simp add: float_sub_def py_round_def round_half_even_def)
qed

lemma ice_hit_sixteenth:
  "final_damage (fst (calculate_damage DamageCalculator_init (1 / 2) (warrior (1 / 16) 0)
      (goblin 50 [FIRE \<mapsto> 30, ICE \<mapsto> - 20]) ICE 1)) = 1261007895663739 / 2 ^ 54"
proof -
  have s: "to_double ((1 / 16) * (3602879701896397 / 2 ^ 54)) = 3602879701896397 / 2 ^ 58"
    using to_double_dyadic[of 3602879701896397 "- 58"] by simp
  have m: "float_mul (1 / 16) (- (3602879701896397 / 2 ^ 54)) = - (3602879701896397 / 2 ^ 58)"
    using s to_double_minus[of "(1 / 16) * (3602879701896397 / 2 ^ 54)"]
    by (simp add: float_mul_def)
  have u: "float_sub (1 / 16) (- (3602879701896397 / 2 ^ 58)) = 5404319552844595 / 2 ^ 56"
    using to_double_pos_eval[of "- 4" "1 / 16 + 3602879701896397 / 2 ^ 58"]
    by (simp add: float_sub_def round_half_even_def)
  have v: "py_round (5404319552844595 / 2 ^ 56) 2 = 1261007895663739 / 2 ^ 54"
    using to_double_pos_eval[of "- 4" "7 / 100"]
    by (simp add: py_round_def round_half_even_def)
  have t: "total_reduction (warrior (1 / 16) 0) (goblin 50 [FIRE \<mapsto> 30, ICE \<mapsto> - 20]) ICE = - 20"
    by (simp add: total_reduction_def goblin_fields dict_get_def)
  have d: "damage_after_crit (fst (calculate_damage DamageCalculator_init (1 / 2) (warrior (1 / 16) 0)
      (goblin 50 [FIRE \<mapsto> 30, ICE \<mapsto> - 20]) ICE 1)) = 1 / 16"
    by (simp add: damage_after_crit_eq warrior_fields float_mul_def to_double_1_16)
  have r: "reduction (fst (calculate_damage DamageCalculator_init (1 / 2) (warrior (1 / 16) 0)
      (goblin 50 [FIRE \<mapsto> 30, ICE \<mapsto> - 20]) ICE 1)) = - (3602879701896397 / 2 ^ 58)"
    unfolding reduction_eq d t reduction_percent_m20 using m by simp
  have mx: "max 0 (float_sub (1 / 16) (- (3602879701896397 / 2 ^ 58))) = 5404319552844595 / 2 ^ 56"
    unfolding u by simp
  have ne: "(ICE = TRUE) = False" by simp
  show ?thesis
    by (simp only: final_damage_eq d r ne if_False mx v)
qed

lemma ice_hit_negative:
  "damage_after_crit (fst (calculate_damage DamageCalculator_init (1 / 2) (warrior 10 0)
      (goblin 50 [FIRE \<mapsto> 30, ICE \<mapsto> - 20]) ICE (- 1))) = - 10"
  by (simp add: damage_after_crit_eq warrior_fields float_mul_def to_double_m10)

subsection \<open>The mitigation curve\<close>






subsection \<open>Two fire resistances one rounding step apart\<close>














section \<open>The claims\<close>

subsection \<open>C1: the sign of \<open>final_damage\<close>\<close>

text \<open>
  Claim C1 says that \<open>final_damage\<close> is at least 0 on every call, the \<open>TRUE\<close> branch and
  a negative \<open>base_damage * skill_multiplier\<close> included. On every other damage type the
  value is floored at zero (line 81, \<open>final_damage_nonneg_mitigated\<close>); the \<open>TRUE\<close> branch
  (lines 58 to 61) has no floor: for a base damage of 10 with \<open>skill_multiplier = -1\<close>
  the call returns \<open>final_damage = -10\<close>.
\<close>

theorem C1_true_damage_negative:
  "final_damage (fst (calculate_damage DamageCalculator_init (1 / 2) (warrior 10 0)
      (goblin 50 Map.empty) TRUE (- 1))) = - 10"
  by (simp add: final_damage_eq damage_after_crit_eq warrior_fields py_round_def float_mul_def
      to_double_m10 round_half_even_def)

subsection \<open>C2: \<open>TRUE\<close> damage\<close>

text \<open>
  Claim C2, as amended: for every call with damage type \<open>TRUE\<close>, whatever the armor, the
  resistances, the armor penetration and the critical-hit outcome, the result has
  \<open>reduction = 0\<close> and \<open>final_damage\<close> is \<open>damage_after_crit\<close> rounded to two decimal
  places (line 91).
\<close>

theorem C2_true_damage_rounded:
  "reduction (fst (calculate_damage self rnd atk dfn TRUE sm)) = 0 \<and>
   final_damage (fst (calculate_damage self rnd atk dfn TRUE sm)) =
     py_round (damage_after_crit (fst (calculate_damage self rnd atk dfn TRUE sm))) 2"
  by (simp add: final_damage_eq reduction_eq)

text \<open>
  Claim C2 as stated, with \<open>final_damage\<close> equal to \<open>damage_after_crit\<close> itself, fails
  for a base damage of \<open>1/16 = 0.0625\<close>: the result holds \<open>damage_after_crit = 0.0625\<close> and
  \<open>final_damage = 0.06\<close>.
\<close>

theorem C2_counterexample:
  "final_damage (fst (calculate_damage DamageCalculator_init (1 / 2) (warrior (1 / 16) 0)
      (goblin 50 Map.empty) TRUE 1))
   \<noteq> damage_after_crit (fst (calculate_damage DamageCalculator_init (1 / 2) (warrior (1 / 16) 0)
      (goblin 50 Map.empty) TRUE 1))"
  by (simp add: final_damage_eq damage_after_crit_eq warrior_fields py_round_def float_mul_def
      to_double_1_16 to_double_3_50 round_half_even_def)

subsection \<open>C3: the ticks of a damage-over-time effect\<close>

text \<open>
  Claim C3: a call of \<open>calculate_dot\<close> with a non-zero \<open>tick_rate\<close> returns a result whose
  \<open>num_ticks\<close> is \<open>duration / tick_rate\<close>, the double that the division returns, truncated
  toward zero (the integer of the quotient's sign whose magnitude is the largest not
  above the quotient's) and whose \<open>total_damage\<close> is the float product
  \<open>tick_damage * num_ticks\<close>; with tick damage 10, duration 9 and tick rate 2 there are 4
  ticks and 40 damage. (With \<open>tick_rate = 0\<close> the division raises, see
  \<open>calculate_dot_zero_tick_rate\<close>.)
\<close>

theorem C3_dot_truncates:
  "(tick_rate \<noteq> 0 \<longrightarrow>
      (\<exists>res. fst (calculate_dot self t d tick_rate) = Inr res
         \<and> \<bar>real_of_int (num_ticks res)\<bar> \<le> \<bar>float_div d tick_rate\<bar>
         \<and> \<bar>float_div d tick_rate\<bar> < \<bar>real_of_int (num_ticks res)\<bar> + 1
         \<and> 0 \<le> real_of_int (num_ticks res) * float_div d tick_rate
         \<and> total_damage res = float_mul t (real_of_int (num_ticks res))))
   \<and> fst (calculate_dot self 10 9 2) =
       Inr \<lparr>tick_damage = 10, num_ticks = 4, total_damage = 40, duration = 9\<rparr>"
proof (intro conjI impI)
  assume "tick_rate \<noteq> 0"
  then show "\<exists>res. fst (calculate_dot self t d tick_rate) = Inr res
         \<and> \<bar>real_of_int (num_ticks res)\<bar> \<le> \<bar>float_div d tick_rate\<bar>
         \<and> \<bar>float_div d tick_rate\<bar> < \<bar>real_of_int (num_ticks res)\<bar> + 1
         \<and> 0 \<le> real_of_int (num_ticks res) * float_div d tick_rate
         \<and> total_damage res = float_mul t (real_of_int (num_ticks res))"
    using py_int_trunc[of "float_div d tick_rate"] by (simp add: calculate_dot_Inr)
next
  have q: "float_div 9 2 = 9 / 2"
    using to_double_dyadic[of 9 "- 1"] by (simp add: float_div_def)
  have m: "float_mul 10 4 = 40"
    using to_double_of_int[of 40] by (simp add: float_mul_def)
  show "fst (calculate_dot self 10 9 2) =
       Inr \<lparr>tick_damage = 10, num_ticks = 4, total_damage = 40, duration = 9\<rparr>"
    by (simp add: calculate_dot_Inr q py_int_def m)
qed

text \<open>The theorem at the example of the source: tick damage 15, duration 10, tick rate 2.\<close>

theorem C3_witness:
  "(2::real) \<noteq> 0 \<and>
   (\<exists>res. fst (calculate_dot DamageCalculator_init 15 10 2) = Inr res
      \<and> \<bar>real_of_int (num_ticks res)\<bar> \<le> \<bar>float_div 10 2\<bar>
      \<and> \<bar>float_div 10 2\<bar> < \<bar>real_of_int (num_ticks res)\<bar> + 1
      \<and> 0 \<le> real_of_int (num_ticks res) * float_div 10 2
      \<and> total_damage res = float_mul 15 (real_of_int (num_ticks res)))"
  using C3_dot_truncates[of 2 DamageCalculator_init 15 10] by simp

subsection \<open>C4: no mitigation\<close>

text \<open>
  Claim C4, as amended: on a damage type other than \<open>TRUE\<close> with \<open>total_reduction = 0\<close>
  the result has \<open>reduction = 0\<close> and \<open>final_damage\<close> is \<open>damage_after_crit\<close>, floored at
  0 (line 81) and rounded to two decimal places (line 91); it is \<open>damage_after_crit\<close>
  exactly when that is not negative and has at most two decimal places.
\<close>

theorem C4_zero_total_reduction:
  assumes "dtype \<noteq> TRUE" and "total_reduction atk dfn dtype = 0"
  shows "reduction (fst (calculate_damage self rnd atk dfn dtype sm)) = 0
       \<and> final_damage (fst (calculate_damage self rnd atk dfn dtype sm)) =
           py_round (max 0 (damage_after_crit (fst (calculate_damage self rnd atk dfn dtype sm)))) 2
       \<and> (0 \<le> damage_after_crit (fst (calculate_damage self rnd atk dfn dtype sm))
            \<and> damage_after_crit (fst (calculate_damage self rnd atk dfn dtype sm)) * 100
                = real_of_int k
          \<longrightarrow> final_damage (fst (calculate_damage self rnd atk dfn dtype sm)) =
                damage_after_crit (fst (calculate_damage self rnd atk dfn dtype sm)))"
proof -
  let ?res = "fst (calculate_damage self rnd atk dfn dtype sm)"
  note dbl = damage_after_crit_double[of self rnd atk dfn dtype sm]
  from assms have r: "reduction ?res = 0"
    by (simp add: reduction_eq reduction_percent_0 float_mul_def to_double_zero)
  have "float_sub (damage_after_crit ?res) (reduction ?res) = damage_after_crit ?res"
    unfolding r float_sub_def using dbl by simp
  with assms(1) have f: "final_damage ?res = py_round (max 0 (damage_after_crit ?res)) 2"
    by (simp add: final_damage_eq)
  have "final_damage ?res = damage_after_crit ?res"
    if "0 \<le> damage_after_crit ?res" "damage_after_crit ?res * 100 = real_of_int k"
    using that f dbl py_round_exact[of "damage_after_crit ?res" 2 k] by (simp add: max_def)
  with r f show ?thesis by blast
qed

text \<open>The theorem at a magical hit of 100 on a defender without resistances.\<close>

theorem C4_witness:
  "(MAGICAL \<noteq> TRUE \<and> total_reduction (warrior 100 0) (goblin 50 Map.empty) MAGICAL = 0)
   \<and> (0 \<le> damage_after_crit (fst (calculate_damage DamageCalculator_init (1 / 2) (warrior 100 0)
            (goblin 50 Map.empty) MAGICAL 1))
       \<and> damage_after_crit (fst (calculate_damage DamageCalculator_init (1 / 2) (warrior 100 0)
            (goblin 50 Map.empty) MAGICAL 1)) * 100 = real_of_int 10000)
   \<and> final_damage (fst (calculate_damage DamageCalculator_init (1 / 2) (warrior 100 0)
        (goblin 50 Map.empty) MAGICAL 1)) = 100"
proof -
  have h1: "MAGICAL \<noteq> TRUE" by simp
  have h2: "total_reduction (warrior 100 0) (goblin 50 Map.empty) MAGICAL = 0"
    by (simp add: total_reduction_def goblin_fields dict_get_def)
  have h3: "damage_after_crit (fst (calculate_damage DamageCalculator_init (1 / 2) (warrior 100 0)
            (goblin 50 Map.empty) MAGICAL 1)) = 100"
    by (simp add: damage_after_crit_eq warrior_fields float_mul_def to_double_100)
  show ?thesis
    using h1 h2 h3
      C4_zero_total_reduction[OF h1 h2, of DamageCalculator_init "1 / 2" 1 10000]
    by simp
qed

text \<open>
  Claim C4 as stated fails at a magical hit of \<open>1/16 = 0.0625\<close> on a defender without
  resistances, where \<open>final_damage\<close> is \<open>0.06\<close>, and at a hit of 10 with
  \<open>skill_multiplier = -1\<close>, where \<open>damage_after_crit\<close> is -10 and \<open>final_damage\<close> is 0.
\<close>

theorem C4_counterexample:
  "(MAGICAL \<noteq> TRUE \<and> total_reduction (warrior (1 / 16) 0) (goblin 50 Map.empty) MAGICAL = 0
    \<and> final_damage (fst (calculate_damage DamageCalculator_init (1 / 2) (warrior (1 / 16) 0)
         (goblin 50 Map.empty) MAGICAL 1))
       \<noteq> damage_after_crit (fst (calculate_damage DamageCalculator_init (1 / 2)
         (warrior (1 / 16) 0) (goblin 50 Map.empty) MAGICAL 1)))
   \<and> (total_reduction (warrior 10 0) (goblin 50 Map.empty) MAGICAL = 0
    \<and> final_damage (fst (calculate_damage DamageCalculator_init (1 / 2) (warrior 10 0)
         (goblin 50 Map.empty) MAGICAL (- 1)))
       \<noteq> damage_after_crit (fst (calculate_damage DamageCalculator_init (1 / 2)
         (warrior 10 0) (goblin 50 Map.empty) MAGICAL (- 1))))"
proof -
  have t: "total_reduction (warrior x 0) (goblin 50 Map.empty) MAGICAL = 0" for x
    by (simp add: total_reduction_def goblin_fields dict_get_def)
  show ?thesis
    by (simp add: t final_damage_eq reduction_eq damage_after_crit_eq reduction_percent_0
        warrior_fields py_round_def float_mul_def float_sub_def to_double_zero
        to_double_1_16 to_double_3_50 to_double_m10 round_half_even_def)
qed

subsection \<open>C5: a total reduction of 100\<close>

text \<open>
  Claim C5, as amended: on a damage type other than \<open>TRUE\<close> with \<open>total_reduction = 100\<close>
  the reduction fraction is \<open>0.5\<close>, \<open>reduction\<close> is \<open>damage_after_crit * 0.5\<close> and
  \<open>final_damage\<close> is \<open>damage_after_crit * 0.5\<close>, floored at 0 and rounded to two decimal
  places; it is \<open>damage_after_crit * 0.5\<close> exactly when \<open>damage_after_crit\<close> is not
  negative and the product has at most two decimal places. (Halving a double is exact.)
\<close>

theorem C5_total_reduction_100:
  assumes "dtype \<noteq> TRUE" and "total_reduction atk dfn dtype = 100"
  shows "reduction_percent (total_reduction atk dfn dtype) = 1 / 2
       \<and> reduction (fst (calculate_damage self rnd atk dfn dtype sm)) =
           damage_after_crit (fst (calculate_damage self rnd atk dfn dtype sm)) * (1 / 2)
       \<and> final_damage (fst (calculate_damage self rnd atk dfn dtype sm)) =
           py_round (max 0
             (damage_after_crit (fst (calculate_damage self rnd atk dfn dtype sm)) * (1 / 2))) 2
       \<and> (0 \<le> damage_after_crit (fst (calculate_damage self rnd atk dfn dtype sm))
            \<and> damage_after_crit (fst (calculate_damage self rnd atk dfn dtype sm)) * (1 / 2) * 100
                = real_of_int k
          \<longrightarrow> final_damage (fst (calculate_damage self rnd atk dfn dtype sm)) =
                damage_after_crit (fst (calculate_damage self rnd atk dfn dtype sm)) * (1 / 2))"
proof -
  let ?res = "fst (calculate_damage self rnd atk dfn dtype sm)"
  note dbl = damage_after_crit_double[of self rnd atk dfn dtype sm]
  have half: "to_double (damage_after_crit ?res * (1 / 2)) = damage_after_crit ?res * (1 / 2)"
    unfolding to_double_half dbl ..
  from assms(2) have p: "reduction_percent (total_reduction atk dfn dtype) = 1 / 2"
    by (simp only: reduction_percent_100)
  from assms(1) have "reduction ?res = float_mul (damage_after_crit ?res) (1 / 2)"
    by (simp only: reduction_eq p if_False)
  then have r: "reduction ?res = damage_after_crit ?res * (1 / 2)"
    unfolding float_mul_def half .
  have "damage_after_crit ?res - damage_after_crit ?res * (1 / 2) = damage_after_crit ?res * (1 / 2)"
    by simp
  then have d: "float_sub (damage_after_crit ?res) (reduction ?res) = damage_after_crit ?res * (1 / 2)"
    unfolding float_sub_def r using half by simp
  from assms(1)
  have "final_damage ?res = py_round (max 0 (float_sub (damage_after_crit ?res) (reduction ?res))) 2"
    by (simp add: final_damage_eq)
  then have f: "final_damage ?res = py_round (max 0 (damage_after_crit ?res * (1 / 2))) 2"
    by (simp only: d)
  have "final_damage ?res = damage_after_crit ?res * (1 / 2)"
    if "0 \<le> damage_after_crit ?res" "damage_after_crit ?res * (1 / 2) * 100 = real_of_int k"
  proof -
    from that(1) have "max 0 (damage_after_crit ?res * (1 / 2)) = damage_after_crit ?res * (1 / 2)"
      by simp
    then show ?thesis
      unfolding f using py_round_exact[of "damage_after_crit ?res * (1 / 2)" 2 k] that(2) half
      by simp
  qed
  with p r f show ?thesis by blast
qed

text \<open>
  The theorem at a physical hit of 100 on armor 100, of which a penetration of \<open>0.2\<close>
  leaves 80, with a physical resistance of 20.
\<close>

theorem C5_witness:
  "(PHYSICAL \<noteq> TRUE \<and> total_reduction (warrior 100 0) (goblin 100 [PHYSICAL \<mapsto> 20]) PHYSICAL = 100)
   \<and> (0 \<le> damage_after_crit (fst (calculate_damage DamageCalculator_init (1 / 2) (warrior 100 0)
            (goblin 100 [PHYSICAL \<mapsto> 20]) PHYSICAL 1))
       \<and> damage_after_crit (fst (calculate_damage DamageCalculator_init (1 / 2) (warrior 100 0)
            (goblin 100 [PHYSICAL \<mapsto> 20]) PHYSICAL 1)) * (1 / 2) * 100 = real_of_int 5000)
   \<and> final_damage (fst (calculate_damage DamageCalculator_init (1 / 2) (warrior 100 0)
        (goblin 100 [PHYSICAL \<mapsto> 20]) PHYSICAL 1)) = 50"
proof -
  have h1: "PHYSICAL \<noteq> TRUE" by simp
  have h2: "total_reduction (warrior 100 0) (goblin 100 [PHYSICAL \<mapsto> 20]) PHYSICAL = 100"
    by (simp add: total_reduction_def goblin_fields dict_get_def
        effective_armor_100 float_add_def to_double_100)
  have h3: "damage_after_crit (fst (calculate_damage DamageCalculator_init (1 / 2) (warrior 100 0)
            (goblin 100 [PHYSICAL \<mapsto> 20]) PHYSICAL 1)) = 100"
    by (simp add: damage_after_crit_eq warrior_fields float_mul_def to_double_100)
  show ?thesis
    using h1 h2 h3
      C5_total_reduction_100[OF h1 h2, of DamageCalculator_init "1 / 2" 1 5000]
    by simp
qed

text \<open>
  Claim C5 as stated fails at a physical hit of \<open>1/8 = 0.125\<close> on armor 125 (effective
  armor 100), where half the damage is \<open>0.0625\<close> and \<open>final_damage\<close> is \<open>0.06\<close>, and at a
  hit of 10 with \<open>skill_multiplier = -1\<close>, where half the damage is -5 and
  \<open>final_damage\<close> is 0.
\<close>

theorem C5_counterexample:
  "(PHYSICAL \<noteq> TRUE \<and> total_reduction (warrior (1 / 8) 0) (goblin 125 Map.empty) PHYSICAL = 100
    \<and> final_damage (fst (calculate_damage DamageCalculator_init (1 / 2) (warrior (1 / 8) 0)
         (goblin 125 Map.empty) PHYSICAL 1))
       \<noteq> damage_after_crit (fst (calculate_damage DamageCalculator_init (1 / 2)
         (warrior (1 / 8) 0) (goblin 125 Map.empty) PHYSICAL 1)) * (1 / 2))
   \<and> (total_reduction (warrior 10 0) (goblin 125 Map.empty) PHYSICAL = 100
    \<and> final_damage (fst (calculate_damage DamageCalculator_init (1 / 2) (warrior 10 0)
         (goblin 125 Map.empty) PHYSICAL (- 1)))
       \<noteq> damage_after_crit (fst (calculate_damage DamageCalculator_init (1 / 2)
         (warrior 10 0) (goblin 125 Map.empty) PHYSICAL (- 1))) * (1 / 2))"
proof -
  have t: "total_reduction (warrior x 0) (goblin 125 Map.empty) PHYSICAL = 100" for x
    by (simp add: total_reduction_def goblin_fields dict_get_def
        effective_armor_125 float_add_def to_double_100)
  have m5: "to_double (- 5) = - 5" using to_double_of_int[of "- 5"] by simp
  show ?thesis
    by (simp add: t final_damage_eq reduction_eq damage_after_crit_eq reduction_percent_100
        warrior_fields py_round_def float_mul_def float_sub_def to_double_zero
        to_double_1_8 to_double_1_16 to_double_3_50 to_double_m10 m5 round_half_even_def)
qed

subsection \<open>C6: a resistance of -20\<close>

text \<open>
  Claim C6, as amended: on a damage type that is neither \<open>PHYSICAL\<close> nor \<open>TRUE\<close>, for a
  defender whose resistance to it is -20, the reduction fraction is the double nearest
  \<open>-0.2\<close>, \<open>reduction\<close> is the float product of \<open>damage_after_crit\<close> and that fraction, and
  \<open>final_damage\<close> is the float difference \<open>damage_after_crit - reduction\<close>, floored at 0
  and rounded to two decimal places. For a \<open>damage_after_crit\<close> that is not negative,
  \<open>final_damage\<close> lies within \<open>0.005 + (damage_after_crit + 1) / 2 ^ 50\<close> of
  \<open>damage_after_crit * 1.2\<close>; for one that is not positive it is 0.
\<close>

theorem C6_negative_resistance:
  assumes "dtype \<noteq> TRUE" and "dtype \<noteq> PHYSICAL" and "resistances dfn dtype = Some (- 20)"
  shows "reduction_percent (total_reduction atk dfn dtype) = - (3602879701896397 / 2 ^ 54)
       \<and> reduction (fst (calculate_damage self rnd atk dfn dtype sm)) =
           float_mul (damage_after_crit (fst (calculate_damage self rnd atk dfn dtype sm)))
             (- (3602879701896397 / 2 ^ 54))
       \<and> final_damage (fst (calculate_damage self rnd atk dfn dtype sm)) =
           py_round (max 0
             (float_sub (damage_after_crit (fst (calculate_damage self rnd atk dfn dtype sm)))
                (reduction (fst (calculate_damage self rnd atk dfn dtype sm))))) 2
       \<and> (0 \<le> damage_after_crit (fst (calculate_damage self rnd atk dfn dtype sm))
          \<longrightarrow> \<bar>final_damage (fst (calculate_damage self rnd atk dfn dtype sm))
                - damage_after_crit (fst (calculate_damage self rnd atk dfn dtype sm)) * (6 / 5)\<bar>
              \<le> 1 / 200
                + (damage_after_crit (fst (calculate_damage self rnd atk dfn dtype sm)) + 1) / 2 ^ 50)
       \<and> (damage_after_crit (fst (calculate_damage self rnd atk dfn dtype sm)) \<le> 0
          \<longrightarrow> final_damage (fst (calculate_damage self rnd atk dfn dtype sm)) = 0)"
proof -
  let ?res = "fst (calculate_damage self rnd atk dfn dtype sm)"
  from assms(2,3) have t: "total_reduction atk dfn dtype = - 20"
    by (simp add: total_reduction_def dict_get_def)
  have p: "reduction_percent (total_reduction atk dfn dtype) = - (3602879701896397 / 2 ^ 54)"
    unfolding t by (rule reduction_percent_m20)
  from assms(1) have r: "reduction ?res =
      float_mul (damage_after_crit ?res) (- (3602879701896397 / 2 ^ 54))"
    by (simp only: reduction_eq p if_False)
  from assms(1) have f: "final_damage ?res =
      py_round (max 0 (float_sub (damage_after_crit ?res) (reduction ?res))) 2"
    by (simp only: final_damage_eq if_False)
  have b1: "\<bar>final_damage ?res - damage_after_crit ?res * (6 / 5)\<bar>
      \<le> 1 / 200 + (damage_after_crit ?res + 1) / 2 ^ 50"
    if "0 \<le> damage_after_crit ?res"
    unfolding f r using that by (rule amplified_bound)
  have b2: "final_damage ?res = 0" if "damage_after_crit ?res \<le> 0"
    unfolding f r using that by (rule amplified_nonpos)
  from p r f b1 b2 show ?thesis by blast
qed

text \<open>
  The theorem at an ice hit of 100 on the goblin of the source's example, and at a hit
  of 10 with \<open>skill_multiplier = -1\<close>.
\<close>

theorem C6_witness:
  "(ICE \<noteq> TRUE \<and> ICE \<noteq> PHYSICAL
      \<and> resistances (goblin 50 [FIRE \<mapsto> 30, ICE \<mapsto> - 20]) ICE = Some (- 20))
   \<and> (0 \<le> damage_after_crit (fst (calculate_damage DamageCalculator_init (1 / 2) (warrior 100 0)
            (goblin 50 [FIRE \<mapsto> 30, ICE \<mapsto> - 20]) ICE 1))
       \<and> \<bar>final_damage (fst (calculate_damage DamageCalculator_init (1 / 2) (warrior 100 0)
            (goblin 50 [FIRE \<mapsto> 30, ICE \<mapsto> - 20]) ICE 1)) - 100 * (6 / 5)\<bar>
          \<le> 1 / 200 + (100 + 1) / 2 ^ 50)
   \<and> (damage_after_crit (fst (calculate_damage DamageCalculator_init (1 / 2) (warrior 10 0)
            (goblin 50 [FIRE \<mapsto> 30, ICE \<mapsto> - 20]) ICE (- 1))) \<le> 0
       \<and> final_damage (fst (calculate_damage DamageCalculator_init (1 / 2) (warrior 10 0)
            (goblin 50 [FIRE \<mapsto> 30, ICE \<mapsto> - 20]) ICE (- 1))) = 0)"
proof -
  have h1: "ICE \<noteq> TRUE" and h2: "ICE \<noteq> PHYSICAL" by simp_all
  have h3: "resistances (goblin 50 [FIRE \<mapsto> 30, ICE \<mapsto> - 20]) ICE = Some (- 20)"
    by (simp add: goblin_fields)
  have d: "damage_after_crit (fst (calculate_damage DamageCalculator_init (1 / 2) (warrior 100 0)
            (goblin 50 [FIRE \<mapsto> 30, ICE \<mapsto> - 20]) ICE 1)) = 100"
    by (simp add: damage_after_crit_eq warrior_fields float_mul_def to_double_100)
  note w1 = C6_negative_resistance[OF h1 h2 h3, of "warrior 100 0" DamageCalculator_init "1 / 2" 1]
  note w2 = C6_negative_resistance[OF h1 h2 h3, of "warrior 10 0" DamageCalculator_init "1 / 2" "- 1"]
  have g1: "0 \<le> damage_after_crit (fst (calculate_damage DamageCalculator_init (1 / 2)
      (warrior 100 0) (goblin 50 [FIRE \<mapsto> 30, ICE \<mapsto> - 20]) ICE 1))"
    unfolding d by simp
  with w1 have "\<bar>final_damage (fst (calculate_damage DamageCalculator_init (1 / 2) (warrior 100 0)
        (goblin 50 [FIRE \<mapsto> 30, ICE \<mapsto> - 20]) ICE 1))
      - damage_after_crit (fst (calculate_damage DamageCalculator_init (1 / 2) (warrior 100 0)
        (goblin 50 [FIRE \<mapsto> 30, ICE \<mapsto> - 20]) ICE 1)) * (6 / 5)\<bar>
      \<le> 1 / 200 + (damage_after_crit (fst (calculate_damage DamageCalculator_init (1 / 2)
        (warrior 100 0) (goblin 50 [FIRE \<mapsto> 30, ICE \<mapsto> - 20]) ICE 1)) + 1) / 2 ^ 50"
    by blast
  then have b1: "\<bar>final_damage (fst (calculate_damage DamageCalculator_init (1 / 2) (warrior 100 0)
        (goblin 50 [FIRE \<mapsto> 30, ICE \<mapsto> - 20]) ICE 1)) - 100 * (6 / 5)\<bar>
      \<le> 1 / 200 + (100 + 1) / 2 ^ 50"
    unfolding d .
  have g2: "damage_after_crit (fst (calculate_damage DamageCalculator_init (1 / 2) (warrior 10 0)
      (goblin 50 [FIRE \<mapsto> 30, ICE \<mapsto> - 20]) ICE (- 1))) \<le> 0"
    unfolding ice_hit_negative by simp
  with w2 have b2: "final_damage (fst (calculate_damage DamageCalculator_init (1 / 2) (warrior 10 0)
      (goblin 50 [FIRE \<mapsto> 30, ICE \<mapsto> - 20]) ICE (- 1))) = 0"
    by blast
  from h1 h2 h3 g1 b1 g2 b2 show ?thesis by blast
qed

text \<open>
  Claim C6 as stated fails at an ice hit of \<open>1/16 = 0.0625\<close>, where
  \<open>damage_after_crit * 1.2\<close> is \<open>0.075\<close> and \<open>final_damage\<close> is \<open>0.07\<close> (the float difference
  falls just below \<open>0.075\<close>, see \<open>ice_hit_sixteenth\<close>), and at a hit of 10 with
  \<open>skill_multiplier = -1\<close>, where the product is -12 and \<open>final_damage\<close> is not negative.
\<close>

theorem C6_counterexample:
  "(ICE \<noteq> TRUE \<and> ICE \<noteq> PHYSICAL
    \<and> resistances (goblin 50 [FIRE \<mapsto> 30, ICE \<mapsto> - 20]) ICE = Some (- 20)
    \<and> final_damage (fst (calculate_damage DamageCalculator_init (1 / 2) (warrior (1 / 16) 0)
         (goblin 50 [FIRE \<mapsto> 30, ICE \<mapsto> - 20]) ICE 1))
       \<noteq> damage_after_crit (fst (calculate_damage DamageCalculator_init (1 / 2)
         (warrior (1 / 16) 0) (goblin 50 [FIRE \<mapsto> 30, ICE \<mapsto> - 20]) ICE 1)) * (12 / 10))
   \<and> final_damage (fst (calculate_damage DamageCalculator_init (1 / 2) (warrior 10 0)
         (goblin 50 [FIRE \<mapsto> 30, ICE \<mapsto> - 20]) ICE (- 1)))
       \<noteq> damage_after_crit (fst (calculate_damage DamageCalculator_init (1 / 2)
         (warrior 10 0) (goblin 50 [FIRE \<mapsto> 30, ICE \<mapsto> - 20]) ICE (- 1))) * (12 / 10)"
proof -
  have d: "damage_after_crit (fst (calculate_damage DamageCalculator_init (1 / 2)
      (warrior (1 / 16) 0) (goblin 50 [FIRE \<mapsto> 30, ICE \<mapsto> - 20]) ICE 1)) = 1 / 16"
    by (simp add: damage_after_crit_eq warrior_fields float_mul_def to_double_1_16)
  have "final_damage (fst (calculate_damage DamageCalculator_init (1 / 2) (warrior 10 0)
      (goblin 50 [FIRE \<mapsto> 30, ICE \<mapsto> - 20]) ICE (- 1))) \<ge> 0"
    by (rule final_damage_nonneg_mitigated) simp
  then show ?thesis
    unfolding ice_hit_sixteenth ice_hit_negative d by (simp add: goblin_fields)
qed

subsection \<open>C7: more resistance, no more damage\<close>




subsection \<open>C8: critical hits\<close>

text \<open>
  Claim C8: for a draw \<open>rnd\<close> in \<open>[0, 1)\<close>, \<open>is_critical\<close> holds exactly when
  \<open>rnd < crit_chance\<close>; so with \<open>crit_chance \<ge> 1\<close> every call is critical and
  \<open>damage_after_crit = base * crit_multiplier\<close>, and with \<open>crit_chance \<le> 0\<close> no call is
  critical and \<open>damage_after_crit = base\<close>, where \<open>base = base_damage * skill_multiplier\<close>
  and the products are those of floats.
\<close>

theorem C8_critical_hit:
  assumes "0 \<le> rnd" and "rnd < 1"
  shows "is_critical (fst (calculate_damage self rnd atk dfn dtype sm)) = (rnd < crit_chance atk)
       \<and> (1 \<le> crit_chance atk \<longrightarrow>
            is_critical (fst (calculate_damage self rnd atk dfn dtype sm))
            \<and> damage_after_crit (fst (calculate_damage self rnd atk dfn dtype sm)) =
                float_mul (float_mul (Attacker.base_damage atk) sm) (crit_multiplier atk))
       \<and> (crit_chance atk \<le> 0 \<longrightarrow>
            \<not> is_critical (fst (calculate_damage self rnd atk dfn dtype sm))
            \<and> damage_after_crit (fst (calculate_damage self rnd atk dfn dtype sm)) =
                float_mul (Attacker.base_damage atk) sm)"
  using assms by (auto simp add: is_critical_eq damage_after_crit_eq)

text \<open>The theorem at the draw \<open>1/2\<close>, for a critical chance of 1 and for one of 0.\<close>

theorem C8_witness:
  "((0::real) \<le> 1 / 2 \<and> (1 / 2 :: real) < 1)
   \<and> (1 \<le> crit_chance (warrior 100 1)
       \<and> is_critical (fst (calculate_damage DamageCalculator_init (1 / 2) (warrior 100 1)
            (goblin 50 Map.empty) PHYSICAL 1))
       \<and> damage_after_crit (fst (calculate_damage DamageCalculator_init (1 / 2) (warrior 100 1)
            (goblin 50 Map.empty) PHYSICAL 1)) = 250)
   \<and> (crit_chance (warrior 100 0) \<le> 0
       \<and> \<not> is_critical (fst (calculate_damage DamageCalculator_init (1 / 2) (warrior 100 0)
            (goblin 50 Map.empty) PHYSICAL 1))
       \<and> damage_after_crit (fst (calculate_damage DamageCalculator_init (1 / 2) (warrior 100 0)
            (goblin 50 Map.empty) PHYSICAL 1)) = 100)"
proof -
  have h1: "(0::real) \<le> 1 / 2" and h2: "(1 / 2 :: real) < 1" by simp_all
  have c1: "1 \<le> crit_chance (warrior 100 1)" and c0: "crit_chance (warrior 100 0) \<le> 0"
    by (simp_all add: warrior_fields)
  have "to_double 250 = 250" using to_double_of_int[of 250] by simp
  then have b: "float_mul (float_mul (Attacker.base_damage (warrior 100 1)) 1)
        (crit_multiplier (warrior 100 1)) = 250"
    "float_mul (Attacker.base_damage (warrior 100 0)) 1 = 100"
    by (simp_all add: warrior_fields float_mul_def to_double_100)
  show ?thesis
    using h1 h2 c1 c0 b
      C8_critical_hit[OF h1 h2, of DamageCalculator_init "warrior 100 1" "goblin 50 Map.empty" PHYSICAL 1]
      C8_critical_hit[OF h1 h2, of DamageCalculator_init "warrior 100 0" "goblin 50 Map.empty" PHYSICAL 1]
    by simp
qed

subsection \<open>C9: the history log\<close>

text \<open>
  Claim C9: every call of \<open>calculate_damage\<close> appends exactly one entry, the result it
  returns, to the calculator's \<open>damage_log\<close>, and every call of \<open>calculate_dot\<close> leaves
  the calculator, and so its log, unchanged.
\<close>

theorem C9_history_log:
  "damage_log (snd (calculate_damage self rnd atk dfn dtype sm)) =
     damage_log self @ [fst (calculate_damage self rnd atk dfn dtype sm)]
   \<and> snd (calculate_dot self base_tick_damage dur tick_rate) = self"
  by (simp add: calculate_damage_snd calculate_dot_def py_truediv_def Let_def)

subsection \<open>C10: negative quotients\<close>

text \<open>
  Claim C10: when \<open>duration / tick_rate\<close>, the double that the division returns, is
  negative and not an integer, \<open>num_ticks\<close> is the quotient rounded toward zero, one above
  its floor, and \<open>total_damage\<close> is the float product of \<open>tick_damage\<close> and that; with
  duration -9 and tick rate 2 it is -4, not -5.
\<close>

theorem C10_dot_negative_quotient:
  "(tick_rate \<noteq> 0 \<and> float_div d tick_rate < 0
      \<and> real_of_int \<lfloor>float_div d tick_rate\<rfloor> \<noteq> float_div d tick_rate \<longrightarrow>
      (\<exists>res. fst (calculate_dot self t d tick_rate) = Inr res
         \<and> num_ticks res = \<lfloor>float_div d tick_rate\<rfloor> + 1
         \<and> float_div d tick_rate < real_of_int (num_ticks res)
         \<and> real_of_int (num_ticks res) \<le> 0
         \<and> total_damage res = float_mul t (real_of_int (num_ticks res))))
   \<and> fst (calculate_dot self t (- 9) 2) =
       Inr \<lparr>tick_damage = t, num_ticks = - 4, total_damage = float_mul t (- 4), duration = - 9\<rparr>"
proof (intro conjI impI)
  assume h: "tick_rate \<noteq> 0 \<and> float_div d tick_rate < 0
      \<and> real_of_int \<lfloor>float_div d tick_rate\<rfloor> \<noteq> float_div d tick_rate"
  define q where "q = float_div d tick_rate"
  from h have q: "q < 0" "real_of_int \<lfloor>q\<rfloor> \<noteq> q" by (simp_all add: q_def)
  from q(2) have c: "\<lceil>q\<rceil> = \<lfloor>q\<rfloor> + 1"
    by (simp add: ceiling_altdef)
  have "real_of_int \<lfloor>q\<rfloor> \<le> q" by simp
  with q(2) have lt: "q < real_of_int \<lceil>q\<rceil>" using c by linarith
  have le: "real_of_int \<lceil>q\<rceil> \<le> 0" using q(1) by (simp add: ceiling_le_iff)
  from h have "fst (calculate_dot self t d tick_rate) =
      Inr \<lparr>tick_damage = t, num_ticks = \<lceil>q\<rceil>,
          total_damage = float_mul t (real_of_int \<lceil>q\<rceil>), duration = d\<rparr>"
    using q(1) by (simp add: calculate_dot_Inr py_int_def q_def)
  with c lt le show "\<exists>res. fst (calculate_dot self t d tick_rate) = Inr res
         \<and> num_ticks res = \<lfloor>float_div d tick_rate\<rfloor> + 1
         \<and> float_div d tick_rate < real_of_int (num_ticks res)
         \<and> real_of_int (num_ticks res) \<le> 0
         \<and> total_damage res = float_mul t (real_of_int (num_ticks res))"
    unfolding q_def by simp
next
  have q: "float_div (- 9) 2 = - (9 / 2)"
    using to_double_dyadic[of "- 9" "- 1"] by (simp add: float_div_def)
  show "fst (calculate_dot self t (- 9) 2) =
       Inr \<lparr>tick_damage = t, num_ticks = - 4, total_damage = float_mul t (- 4), duration = - 9\<rparr>"
    by (simp add: calculate_dot_Inr q py_int_def)
qed

text \<open>The theorem at tick damage 10, duration -9 and tick rate 2.\<close>

theorem C10_witness:
  "((2::real) \<noteq> 0 \<and> float_div (- 9) 2 < 0
      \<and> real_of_int \<lfloor>float_div (- 9) 2\<rfloor> \<noteq> float_div (- 9) 2) \<and>
   (\<exists>res. fst (calculate_dot DamageCalculator_init 10 (- 9) 2) = Inr res
      \<and> num_ticks res = - 4 \<and> total_damage res = - 40)"
proof -
  have q: "float_div (- 9) 2 = - (9 / 2)"
    using to_double_dyadic[of "- 9" "- 1"] by (simp add: float_div_def)
  have m: "float_mul 10 (- 4) = - 40"
    using to_double_of_int[of "- 40"] by (simp add: float_mul_def)
  show ?thesis
    using C10_dot_negative_quotient[of 2 "- 9" DamageCalculator_init 10] by (simp add: q m)
qed

end
